theory Spec2Isabelle
  imports Complex_Main
begin

section \<open>The conversation store (class ConversationMemory)\<close>

text \<open>
  The store is the TypeScript class \<open>ConversationMemory\<close>. Its two mutable fields are
  the \<open>Map<string, Conversation>\<close> and the current-conversation marker. A JavaScript
  \<open>Map\<close> keeps its entries in insertion order, and \<open>Array.from(map.values())\<close> reads
  them in that order, so the map is an association list: \<open>set\<close> on a key that is present
  replaces the value where it stands, \<open>set\<close> on a new key appends, \<open>delete\<close> removes.

  A \<open>Date\<close> is its time value (milliseconds since the epoch, \<open>getTime()\<close>), an
  \<open>int\<close>; the Invalid Date is not a value of the model. Every reading of the clock
  (\<open>Date.now()\<close>, \<open>new Date()\<close>) and every draw of \<open>Math.random()\<close> is an argument
  of the operation that makes it. The writes to \<open>localStorage\<close> (\<open>saveToStorage\<close>)
  are wrapped in their own try/catch and never change the two fields; they are left out,
  and so is the constructor's \<open>loadFromStorage\<close>: a store starts as \<open>emptyMemory\<close>.
\<close>

datatype Role = User | Assistant

datatype json =
    JNull
  | JBool bool
  | JNum rat
  | JStr string
  | JArr "json list"
  | JObj "(string \<times> json) list"

record ConversationMessage =
  msg_id :: string
  content :: string
  role :: Role
  timestamp :: int
  msg_model :: "string option"
  metadata :: "json option"

record Conversation =
  conv_id :: string
  title :: string
  messages :: "ConversationMessage list"
  model :: string
  createdAt :: int
  updatedAt :: int

text \<open>The argument of \<open>addMessage\<close>: \<open>Omit<ConversationMessage, "id" | "timestamp">\<close>.\<close>

record NewMessage =
  new_content :: string
  new_role :: Role
  new_model :: "string option"
  new_metadata :: "json option"

type_synonym ConversationMap = "(string \<times> Conversation) list"

record ConversationMemory =
  conversations :: ConversationMap
  currentConversationId :: "string option"

definition MAX_CONVERSATIONS :: nat where
  "MAX_CONVERSATIONS = 50"

definition MAX_MESSAGES_PER_CONVERSATION :: nat where
  "MAX_MESSAGES_PER_CONVERSATION = 100"

subsection \<open>The operations of a JavaScript Map\<close>

fun map_get :: "ConversationMap \<Rightarrow> string \<Rightarrow> Conversation option" where
  "map_get [] k = None"
| "map_get ((k', v) # rest) k = (if k' = k then Some v else map_get rest k)"

fun map_set :: "ConversationMap \<Rightarrow> string \<Rightarrow> Conversation \<Rightarrow> ConversationMap" where
  "map_set [] k v = [(k, v)]"
| "map_set ((k', v') # rest) k v =
     (if k' = k then (k, v) # rest else (k', v') # map_set rest k v)"

definition map_delete :: "ConversationMap \<Rightarrow> string \<Rightarrow> ConversationMap" where
  "map_delete m k = filter (\<lambda>e. fst e \<noteq> k) m"

definition map_values :: "ConversationMap \<Rightarrow> Conversation list" where
  "map_values m = map snd m"

definition map_keys :: "ConversationMap \<Rightarrow> string list" where
  "map_keys m = map fst m"

definition map_size :: "ConversationMap \<Rightarrow> nat" where
  "map_size m = length m"

text \<open>The state of a freshly constructed store with nothing in \<open>localStorage\<close>.\<close>

definition emptyMemory :: ConversationMemory where
  "emptyMemory = \<lparr> conversations = [], currentConversationId = None \<rparr>"

subsection \<open>Strings the operations build\<close>

definition digit :: "nat \<Rightarrow> char" where
  "digit d = ''0123456789'' ! (d mod 10)"

fun decimal :: "nat \<Rightarrow> string" where
  "decimal n = (if n < 10 then [digit n] else decimal (n div 10) @ [digit (n mod 10)])"

declare decimal.simps [simp del]

text \<open>\<open>String(n)\<close> for an integer time value, as a template literal prints it.\<close>

definition numberToString :: "int \<Rightarrow> string" where
  "numberToString i = (if i < 0 then CHR ''-'' # decimal (nat (- i)) else decimal (nat i))"

text \<open>
  \<open>s.slice(-n)\<close> for an array and \<open>n > 0\<close>: the last \<open>n\<close> elements, the whole array
  when it has fewer.
\<close>

definition slice_last :: "nat \<Rightarrow> 'a list \<Rightarrow> 'a list" where
  "slice_last n xs = drop (length xs - n) xs"

subsection \<open>createConversation\<close>

text \<open>
  \<open>createConversation(model)\<close> reads the clock three times (\<open>Date.now()\<close> for the id,
  \<open>new Date()\<close> for \<open>createdAt\<close> and for \<open>updatedAt\<close>) and draws one random suffix
  \<open>Math.random().toString(36).substr(2, 9)\<close>; they are the arguments \<open>tid\<close>,
  \<open>tc\<close>, \<open>tu\<close> and \<open>rnd\<close>. \<open>Array.prototype.sort\<close> is stable, as \<open>sort_key\<close> is.
  The list sorted on line 85 has more than \<open>MAX_CONVERSATIONS\<close> elements, so \<open>[0]\<close>
  exists; the \<open>[]\<close> branch below is never taken.
\<close>

definition newConversationId :: "int \<Rightarrow> string \<Rightarrow> string" where
  "newConversationId tid rnd = ''conv_'' @ numberToString tid @ ''_'' @ rnd"

definition evictOldest :: "ConversationMap \<Rightarrow> ConversationMap" where
  "evictOldest m =
     (if map_size m > MAX_CONVERSATIONS then
        (case sort_key updatedAt (map_values m) of
           [] \<Rightarrow> m
         | oldest # _ \<Rightarrow> map_delete m (conv_id oldest))
      else m)"

definition createConversation ::
  "ConversationMemory \<Rightarrow> string \<Rightarrow> int \<Rightarrow> string \<Rightarrow> int \<Rightarrow> int \<Rightarrow> string \<times> ConversationMemory" where
  "createConversation s mdl tid rnd tc tu =
     (let ident = newConversationId tid rnd;
          conversation = \<lparr> conv_id = ident, title = ''New Conversation'', messages = [],
                           model = mdl, createdAt = tc, updatedAt = tu \<rparr>;
          m1 = map_set (conversations s) ident conversation;
          m2 = evictOldest m1
      in (ident, \<lparr> conversations = m2, currentConversationId = Some ident \<rparr>))"

subsection \<open>addMessage\<close>

text \<open>
  \<open>addMessage\<close> mutates the conversation object held by the map, so the entry keeps its
  place. The clock is read for the message id (\<open>tid\<close>), the message timestamp (\<open>tm\<close>)
  and \<open>updatedAt\<close> (\<open>tu\<close>).
\<close>

definition newMessageId :: "int \<Rightarrow> string \<Rightarrow> string" where
  "newMessageId tid rnd = ''msg_'' @ numberToString tid @ ''_'' @ rnd"

definition titleOf :: "string \<Rightarrow> string" where
  "titleOf c = take 50 c @ (if length c > 50 then ''...'' else '''')"

definition pushMessage :: "Conversation \<Rightarrow> NewMessage \<Rightarrow> int \<Rightarrow> string \<Rightarrow> int \<Rightarrow> int \<Rightarrow> Conversation" where
  "pushMessage conversation message tid rnd tm tu =
     (let newMessage = \<lparr> msg_id = newMessageId tid rnd, content = new_content message,
                          role = new_role message, timestamp = tm,
                          msg_model = new_model message, metadata = new_metadata message \<rparr>;
          c1 = conversation\<lparr> messages := messages conversation @ [newMessage] \<rparr>;
          c2 = c1\<lparr> updatedAt := tu \<rparr>;
          c3 = (if length (messages c2) = 1 \<and> new_role message = User
                then c2\<lparr> title := titleOf (new_content message) \<rparr> else c2);
          c4 = (if length (messages c3) > MAX_MESSAGES_PER_CONVERSATION
                then c3\<lparr> messages := slice_last MAX_MESSAGES_PER_CONVERSATION (messages c3) \<rparr>
                else c3)
      in c4)"

definition addMessage ::
  "ConversationMemory \<Rightarrow> string \<Rightarrow> NewMessage \<Rightarrow> int \<Rightarrow> string \<Rightarrow> int \<Rightarrow> int \<Rightarrow> ConversationMemory" where
  "addMessage s conversationId message tid rnd tm tu =
     (case map_get (conversations s) conversationId of
        None \<Rightarrow> s
      | Some conversation \<Rightarrow>
          s\<lparr> conversations :=
               map_set (conversations s) conversationId
                 (pushMessage conversation message tid rnd tm tu) \<rparr>)"

subsection \<open>The readers, deleteConversation, the marker, clearAllConversations\<close>

definition getConversation :: "ConversationMemory \<Rightarrow> string \<Rightarrow> Conversation option" where
  "getConversation s ident = map_get (conversations s) ident"

definition getAllConversations :: "ConversationMemory \<Rightarrow> Conversation list" where
  "getAllConversations s = sort_key (\<lambda>c. - updatedAt c) (map_values (conversations s))"

definition deleteConversation :: "ConversationMemory \<Rightarrow> string \<Rightarrow> ConversationMemory" where
  "deleteConversation s ident =
     \<lparr> conversations = map_delete (conversations s) ident,
       currentConversationId =
         (if currentConversationId s = Some ident then None else currentConversationId s) \<rparr>"

definition setCurrentConversation :: "ConversationMemory \<Rightarrow> string \<Rightarrow> ConversationMemory" where
  "setCurrentConversation s ident = s\<lparr> currentConversationId := Some ident \<rparr>"

definition getCurrentConversationId :: "ConversationMemory \<Rightarrow> string option" where
  "getCurrentConversationId s = currentConversationId s"

definition clearAllConversations :: "ConversationMemory \<Rightarrow> ConversationMemory" where
  "clearAllConversations s = \<lparr> conversations = [], currentConversationId = None \<rparr>"

subsection \<open>getContextMessages\<close>

text \<open>
  \<open>Math.ceil(message.content.length / 4)\<close>. The loop
  \<open>for (let i = length - 1; i >= 0; i--)\<close> is \<open>contextLoop\<close>, whose counter is
  \<open>i + 1\<close>: \<open>0\<close> is the exit of the loop, and at \<open>Suc i\<close> the body runs on
  \<open>messages[i]\<close>. \<open>unshift\<close> puts the message in front; \<open>break\<close> returns what has
  been collected. The budget \<open>maxTokens\<close> is an integer, of either sign.
\<close>

definition estimateTokens :: "ConversationMessage \<Rightarrow> nat" where
  "estimateTokens message = (length (content message) + 3) div 4"

fun contextLoop ::
  "ConversationMessage list \<Rightarrow> int \<Rightarrow> nat \<Rightarrow> nat \<Rightarrow> ConversationMessage list \<Rightarrow> ConversationMessage list" where
  "contextLoop msgs maxTokens 0 totalTokens contextMessages = contextMessages"
| "contextLoop msgs maxTokens (Suc i) totalTokens contextMessages =
     (let message = msgs ! i;
          estimatedTokens = estimateTokens message
      in if int totalTokens + int estimatedTokens > maxTokens \<and> length contextMessages > 0
         then contextMessages
         else contextLoop msgs maxTokens i (totalTokens + estimatedTokens)
                (message # contextMessages))"

definition getContextMessages :: "ConversationMemory \<Rightarrow> string \<Rightarrow> int \<Rightarrow> ConversationMessage list" where
  "getContextMessages s conversationId maxTokens =
     (case map_get (conversations s) conversationId of
        None \<Rightarrow> []
      | Some conversation \<Rightarrow>
          contextLoop (messages conversation) maxTokens (length (messages conversation)) 0 [])"

text \<open>The estimate of a run of messages: the sum of their estimates.\<close>

definition tokensOf :: "ConversationMessage list \<Rightarrow> nat" where
  "tokensOf ms = sum_list (map estimateTokens ms)"

subsection \<open>exportConversations and importConversations\<close>

text \<open>
  \<open>JSON.parse\<close>, \<open>JSON.stringify\<close>, \<open>Date.parse\<close> and \<open>toISOString\<close> belong to
  the JavaScript runtime. The snapshot is handled as the JSON tree: \<open>exportConversations\<close>
  yields the tree that \<open>JSON.stringify\<close> prints, and \<open>importConversations\<close> takes what
  \<open>JSON.parse(jsonData)\<close> gives, \<open>None\<close> when it throws a SyntaxError. The two date
  functions are the fields of \<open>DateLib\<close>: \<open>Date_parse s = None\<close> is \<open>NaN\<close>.

  The store is typed (\<open>Map<string, Conversation>\<close>) and \<open>importConversations\<close> checks
  nothing (\<open>conv: any\<close>). An evaluation in the source has one of three outcomes here:
  a value of the declared type, a thrown TypeError, or a value the declared types do not
  hold (a conversation with a numeric id, an unknown property kept by the spread, an
  Invalid Date), where the source goes on and the model stops: \<open>Unmodelled\<close>.
\<close>

datatype 'a js = Value 'a | Throws | Unmodelled

record DateLib =
  Date_parse :: "string \<Rightarrow> int option"
  toISOString :: "int \<Rightarrow> string"

definition field :: "(string \<times> json) list \<Rightarrow> string \<Rightarrow> json option" where
  "field fs k = map_of fs k"

text \<open>
  \<open>new Date(v)\<close> for a value read from the parsed snapshot (\<open>None\<close> is
  \<open>undefined\<close>): \<open>null\<close> and the booleans are converted to numbers, a number is
  clipped (\<open>TimeClip\<close>: magnitude at most \<open>8.64e15\<close>, truncated towards zero), a string
  goes through \<open>Date.parse\<close>.
\<close>

definition newDate :: "DateLib \<Rightarrow> json option \<Rightarrow> int js" where
  "newDate lib v =
     (case v of
        None \<Rightarrow> Unmodelled
      | Some JNull \<Rightarrow> Value 0
      | Some (JBool b) \<Rightarrow> Value (if b then 1 else 0)
      | Some (JNum r) \<Rightarrow>
          (if \<bar>r\<bar> \<le> 8640000000000000
           then Value (if 0 \<le> r then \<lfloor>r\<rfloor> else \<lceil>r\<rceil>) else Unmodelled)
      | Some (JStr t) \<Rightarrow> (case Date_parse lib t of Some ms \<Rightarrow> Value ms | None \<Rightarrow> Unmodelled)
      | Some (JArr _) \<Rightarrow> Unmodelled
      | Some (JObj _) \<Rightarrow> Unmodelled)"

definition asString :: "json option \<Rightarrow> string option" where
  "asString v = (case v of Some (JStr t) \<Rightarrow> Some t | _ \<Rightarrow> None)"

definition asOptionalString :: "json option \<Rightarrow> string option option" where
  "asOptionalString v =
     (case v of None \<Rightarrow> Some None | Some (JStr t) \<Rightarrow> Some (Some t) | _ \<Rightarrow> None)"

definition asRole :: "json option \<Rightarrow> Role option" where
  "asRole v =
     (case v of
        Some (JStr t) \<Rightarrow>
          (if t = ''user'' then Some User
           else if t = ''assistant'' then Some Assistant else None)
      | _ \<Rightarrow> None)"

definition messageKeys :: "string list" where
  "messageKeys = [''content'', ''role'', ''model'', ''metadata'', ''id'', ''timestamp'']"

definition conversationKeys :: "string list" where
  "conversationKeys = [''id'', ''title'', ''messages'', ''model'', ''createdAt'', ''updatedAt'']"

definition knownKeys :: "string list \<Rightarrow> (string \<times> json) list \<Rightarrow> bool" where
  "knownKeys ks fs = (distinct (map fst fs) \<and> list_all (\<lambda>k. k \<in> set ks) (map fst fs))"

text \<open>
  The callback of \<open>conv.messages.map\<close>:
  \<open>{...msg, timestamp: new Date(msg.timestamp)}\<close>. Reading \<open>msg.timestamp\<close> throws on
  \<open>null\<close>; any other JSON value passes.
\<close>

definition decodeMessage :: "DateLib \<Rightarrow> json \<Rightarrow> ConversationMessage js" where
  "decodeMessage lib msg =
     (case msg of
        JNull \<Rightarrow> Throws
      | JObj fs \<Rightarrow>
          (if knownKeys messageKeys fs then
             (case (asString (field fs ''id''), asString (field fs ''content''),
                    asRole (field fs ''role''), newDate lib (field fs ''timestamp''),
                    asOptionalString (field fs ''model'')) of
                (Some i, Some c, Some r, Value t, Some mo) \<Rightarrow>
                  Value \<lparr> msg_id = i, content = c, role = r, timestamp = t,
                          msg_model = mo, metadata = field fs ''metadata'' \<rparr>
              | _ \<Rightarrow> Unmodelled)
           else Unmodelled)
      | _ \<Rightarrow> Unmodelled)"

text \<open>\<open>Array.prototype.map\<close> over the outcomes: the first throw ends it.\<close>

fun collect :: "'a js list \<Rightarrow> 'a list js" where
  "collect [] = Value []"
| "collect (Throws # rest) = Throws"
| "collect (Value v # rest) =
     (case collect rest of Value vs \<Rightarrow> Value (v # vs) | Throws \<Rightarrow> Throws | Unmodelled \<Rightarrow> Unmodelled)"
| "collect (Unmodelled # rest) =
     (case collect rest of Throws \<Rightarrow> Throws | _ \<Rightarrow> Unmodelled)"

text \<open>
  The argument of \<open>this.conversations.set\<close> on lines 186 to 194. \<open>conv.id\<close> throws on
  \<open>null\<close>; \<open>conv.messages.map\<close> throws unless \<open>conv.messages\<close> is an array (JSON
  holds no function, so nothing else has a callable \<open>map\<close>).
\<close>

definition decodeConversation :: "DateLib \<Rightarrow> json \<Rightarrow> Conversation js" where
  "decodeConversation lib conv =
     (case conv of
        JObj fs \<Rightarrow>
          (case field fs ''messages'' of
             Some (JArr ms) \<Rightarrow>
               (case collect (map (decodeMessage lib) ms) of
                  Throws \<Rightarrow> Throws
                | Unmodelled \<Rightarrow> Unmodelled
                | Value decoded \<Rightarrow>
                    (if knownKeys conversationKeys fs then
                       (case (asString (field fs ''id''), asString (field fs ''title''),
                              asString (field fs ''model''),
                              newDate lib (field fs ''createdAt''),
                              newDate lib (field fs ''updatedAt'')) of
                          (Some i, Some t, Some mo, Value tc, Value tu) \<Rightarrow>
                            Value \<lparr> conv_id = i, title = t, messages = decoded, model = mo,
                                    createdAt = tc, updatedAt = tu \<rparr>
                        | _ \<Rightarrow> Unmodelled)
                     else Unmodelled))
           | _ \<Rightarrow> Throws)
      | _ \<Rightarrow> Throws)"

text \<open>
  \<open>data.forEach\<close> on lines 185 to 195, run on the map that line 184 has cleared. The
  boolean tells whether the loop reached its end (\<open>True\<close>) or threw (\<open>False\<close>); the map
  is what the store holds at that moment.
\<close>

fun importLoop :: "DateLib \<Rightarrow> ConversationMap \<Rightarrow> json list \<Rightarrow> (bool \<times> ConversationMap) option" where
  "importLoop lib m [] = Some (True, m)"
| "importLoop lib m (conv # rest) =
     (case decodeConversation lib conv of
        Throws \<Rightarrow> Some (False, m)
      | Unmodelled \<Rightarrow> None
      | Value c \<Rightarrow> importLoop lib (map_set m (conv_id c) c) rest)"

definition importConversations ::
  "DateLib \<Rightarrow> ConversationMemory \<Rightarrow> json option \<Rightarrow> (bool \<times> ConversationMemory) option" where
  "importConversations lib s parsed =
     (case parsed of
        None \<Rightarrow> Some (False, s)
      | Some (JArr data) \<Rightarrow>
          (case importLoop lib [] data of
             None \<Rightarrow> None
           | Some (finished, m) \<Rightarrow> Some (finished, s\<lparr> conversations := m \<rparr>))
      | Some _ \<Rightarrow> Some (False, s))"

text \<open>
  What \<open>JSON.stringify\<close> prints for a message and a conversation: a \<open>Date\<close> through
  \<open>toJSON\<close>, an \<open>undefined\<close> property not at all.
\<close>

definition optionalField :: "string \<Rightarrow> json option \<Rightarrow> (string \<times> json) list" where
  "optionalField k v = (case v of None \<Rightarrow> [] | Some j \<Rightarrow> [(k, j)])"

definition encodeMessage :: "DateLib \<Rightarrow> ConversationMessage \<Rightarrow> json" where
  "encodeMessage lib m =
     JObj ([(''content'', JStr (content m)),
            (''role'', JStr (case role m of User \<Rightarrow> ''user'' | Assistant \<Rightarrow> ''assistant''))]
           @ optionalField ''model'' (map_option JStr (msg_model m))
           @ optionalField ''metadata'' (metadata m)
           @ [(''id'', JStr (msg_id m)),
              (''timestamp'', JStr (toISOString lib (timestamp m)))])"

definition encodeConversation :: "DateLib \<Rightarrow> Conversation \<Rightarrow> json" where
  "encodeConversation lib c =
     JObj [(''id'', JStr (conv_id c)),
           (''title'', JStr (title c)),
           (''messages'', JArr (map (encodeMessage lib) (messages c))),
           (''model'', JStr (model c)),
           (''createdAt'', JStr (toISOString lib (createdAt c))),
           (''updatedAt'', JStr (toISOString lib (updatedAt c)))]"

definition exportConversations :: "DateLib \<Rightarrow> ConversationMemory \<Rightarrow> json" where
  "exportConversations lib s = JArr (map (encodeConversation lib) (map_values (conversations s)))"

subsection \<open>Sequences of calls\<close>

text \<open>
  One call of \<open>addMessage\<close> with the clock readings and the random suffix it consumes,
  and the message object it builds (lines 99 to 103).
\<close>

record AddCall =
  call_conversationId :: string
  call_message :: NewMessage
  call_tid :: int
  call_rnd :: string
  call_tm :: int
  call_tu :: int

definition builtMessage :: "AddCall \<Rightarrow> ConversationMessage" where
  "builtMessage call =
     \<lparr> msg_id = newMessageId (call_tid call) (call_rnd call),
       content = new_content (call_message call),
       role = new_role (call_message call),
       timestamp = call_tm call,
       msg_model = new_model (call_message call),
       metadata = new_metadata (call_message call) \<rparr>"

definition applyAdd :: "ConversationMemory \<Rightarrow> AddCall \<Rightarrow> ConversationMemory" where
  "applyAdd s call =
     addMessage s (call_conversationId call) (call_message call)
       (call_tid call) (call_rnd call) (call_tm call) (call_tu call)"

definition addMessages :: "ConversationMemory \<Rightarrow> AddCall list \<Rightarrow> ConversationMemory" where
  "addMessages s calls = foldl applyAdd s calls"

text \<open>The messages that a sequence of calls appends to one conversation, in order.\<close>

definition appendedTo :: "string \<Rightarrow> AddCall list \<Rightarrow> ConversationMessage list" where
  "appendedTo cid calls =
     map builtMessage (filter (\<lambda>call. call_conversationId call = cid) calls)"

text \<open>
  The public operations that change the store, each with what it reads from the clock,
  the random generator and its caller. \<open>perform\<close> is \<open>None\<close> only where
  \<open>importConversations\<close> is \<open>Unmodelled\<close>.
\<close>

datatype Operation =
    CreateConversation string int string int int
  | AddMessage AddCall
  | DeleteConversation string
  | SetCurrentConversation string
  | ImportConversations "json option"
  | ClearAllConversations

fun perform :: "DateLib \<Rightarrow> ConversationMemory \<Rightarrow> Operation \<Rightarrow> ConversationMemory option" where
  "perform lib s (CreateConversation mdl tid rnd tc tu) =
     Some (snd (createConversation s mdl tid rnd tc tu))"
| "perform lib s (AddMessage call) = Some (applyAdd s call)"
| "perform lib s (DeleteConversation ident) = Some (deleteConversation s ident)"
| "perform lib s (SetCurrentConversation ident) = Some (setCurrentConversation s ident)"
| "perform lib s (ImportConversations parsed) =
     map_option snd (importConversations lib s parsed)"
| "perform lib s ClearAllConversations = Some (clearAllConversations s)"

fun performAll :: "DateLib \<Rightarrow> ConversationMemory \<Rightarrow> Operation list \<Rightarrow> ConversationMemory option" where
  "performAll lib s [] = Some s"
| "performAll lib s (op # ops) =
     (case perform lib s op of None \<Rightarrow> None | Some s' \<Rightarrow> performAll lib s' ops)"

text \<open>
  The representation invariant of the map: a \<open>Map\<close> has no key twice, and every
  operation files a conversation under its own \<open>id\<close>.
\<close>

definition keyed :: "ConversationMap \<Rightarrow> bool" where
  "keyed m = (distinct (map_keys m) \<and> list_all (\<lambda>e. conv_id (snd e) = fst e) m)"

text \<open>The two caps, as a predicate on a store.\<close>

definition withinCaps :: "ConversationMemory \<Rightarrow> bool" where
  "withinCaps s =
     (map_size (conversations s) \<le> MAX_CONVERSATIONS \<and>
      list_all (\<lambda>c. length (messages c) \<le> MAX_MESSAGES_PER_CONVERSATION)
        (map_values (conversations s)))"

text \<open>Every time value a store holds.\<close>

definition timesOfConversation :: "Conversation \<Rightarrow> int list" where
  "timesOfConversation c = createdAt c # updatedAt c # map timestamp (messages c)"

definition timesOf :: "ConversationMemory \<Rightarrow> int list" where
  "timesOf s = concat (map timesOfConversation (map_values (conversations s)))"

text \<open>
  The law of ECMAScript that a snapshot relies on, for the time values of one store:
  \<open>Date.parse(d.toISOString())\<close> is the time value of \<open>d\<close>.
\<close>

definition datesRoundTrip :: "DateLib \<Rightarrow> ConversationMemory \<Rightarrow> bool" where
  "datesRoundTrip lib s = list_all (\<lambda>t. Date_parse lib (toISOString lib t) = Some t) (timesOf s)"


section \<open>The chat route\<close>

text \<open>
  \<open>isGroqModel\<close> and lines 214 to 268 of the chat handler: the choice of the upstream
  and what its answer becomes. The two upstream calls are arguments: \<open>groq\<close> is what
  \<open>generateText\<close> does when it is called, \<open>openRouter\<close> what the \<open>fetch\<close> and the
  reading of its body do. A thrown \<open>Error\<close> is \<open>Inl\<close> of its message.
\<close>

definition groqModels :: "string list" where
  "groqModels =
     [''llama-3.3-70b-versatile'',
      ''llama-3.1-8b-instant'',
      ''llama3-70b-8192'',
      ''llama3-8b-8192'',
      ''gemma2-9b-it'']"

definition isGroqModel :: "string \<Rightarrow> bool" where
  "isGroqModel modelId = (modelId \<in> set groqModels)"

record RouteEnv =
  GROQ_API_KEY :: "string option"
  OPENROUTER_API_KEYS :: "string list"
  random :: rat

text \<open>
  \<open>OPENROUTER_API_KEYS\<close> is the list after \<open>filter(Boolean)\<close>; \<open>random\<close> is the draw
  of \<open>Math.random()\<close>, in \<open>[0, 1)\<close>, so the index is below the length.
\<close>

definition getRandomApiKey :: "RouteEnv \<Rightarrow> string + string" where
  "getRandomApiKey env =
     (if length (OPENROUTER_API_KEYS env) = 0 then Inl ''No OpenRouter API keys configured''
      else Inr (OPENROUTER_API_KEYS env !
                  nat \<lfloor>random env * of_nat (length (OPENROUTER_API_KEYS env))\<rfloor>))"

record ChatResult =
  result_text :: string
  result_finishReason :: "string option"

datatype ChatFetch =
    FetchThrows string
  | NotOk nat "string option"
  | OkBody "ChatResult option"

text \<open>
  \<open>FetchThrows e\<close>: \<open>fetch\<close> or the reading of the body throws an error with the message
  \<open>e\<close>. \<open>NotOk status m\<close>: \<open>response.ok\<close> is false and \<open>m\<close> is
  \<open>errorData.error?.message\<close> when it is there and not empty. \<open>OkBody None\<close>: the body
  lacks \<open>choices[0].message\<close>. The \<open>usage\<close> of a result is read only after line 268, for
  the cost estimate, and is not part of \<open>ChatResult\<close>.
\<close>

definition chatRoute ::
  "RouteEnv \<Rightarrow> string \<Rightarrow> (string + ChatResult) \<Rightarrow> ChatFetch \<Rightarrow> string + (string \<times> ChatResult)" where
  "chatRoute env mdl groq openRouter =
     (if isGroqModel mdl then
        (case GROQ_API_KEY env of
           None \<Rightarrow> Inl ''Groq API key not configured''
         | Some key \<Rightarrow>
             (if key = [] then Inl ''Groq API key not configured''
              else (case groq of Inl e \<Rightarrow> Inl e | Inr r \<Rightarrow> Inr (''Groq'', r))))
      else
        (case getRandomApiKey env of
           Inl e \<Rightarrow> Inl e
         | Inr apiKey \<Rightarrow>
             (case openRouter of
                FetchThrows e \<Rightarrow> Inl e
              | NotOk status m \<Rightarrow>
                  Inl (case m of Some t \<Rightarrow> t
                       | None \<Rightarrow> ''API error: '' @ numberToString (int status))
              | OkBody None \<Rightarrow> Inl ''Invalid response format from API''
              | OkBody (Some r) \<Rightarrow> Inr (''OpenRouter'', r))))"

section \<open>The image route\<close>

text \<open>
  The handler \<open>POST\<close> of the image route and \<open>generateAdvancedPlaceholder\<close>. The request is
  what \<open>request.json()\<close> yields: any JSON value, \<open>None\<close> when the body is not JSON and
  the call rejects. The handler declares no type for it, so the prompt, the model and the
  options are JSON values of any kind. The clock reading \<open>new Date().toISOString()\<close> is
  the argument \<open>now\<close>; the logging and the simulated delay are left out.
  \<open>toLowerCase\<close>, \<open>String(Number(s))\<close> and \<open>encodeURIComponent\<close> (which throws a
  URIError on a lone surrogate: \<open>None\<close>) are the runtime's and are the fields of
  \<open>StringLib\<close>.
\<close>

record StringLib =
  toLowerCase :: "string \<Rightarrow> string"
  numberText :: "string \<Rightarrow> string"
  encodeURIComponent :: "string \<Rightarrow> string option"

text \<open>\<open>s.split(c)\<close> for a separator of one character.\<close>

fun split :: "char \<Rightarrow> string \<Rightarrow> string list" where
  "split c [] = [[]]"
| "split c (x # xs) =
     (if x = c then [] # split c xs
      else (case split c xs of w # ws \<Rightarrow> (x # w) # ws | [] \<Rightarrow> [[x]]))"

definition includesAny :: "string list \<Rightarrow> string list \<Rightarrow> bool" where
  "includesAny keywords ws = list_ex (\<lambda>word. word \<in> set ws) keywords"

definition categoryAndColor :: "string list \<Rightarrow> string \<times> string" where
  "categoryAndColor keywords =
     (if includesAny keywords [''person'', ''human'', ''man'', ''woman'', ''portrait'']
        then (''portrait'', ''purple'')
      else if includesAny keywords [''landscape'', ''nature'', ''mountain'', ''forest'', ''ocean'']
        then (''landscape'', ''green'')
      else if includesAny keywords [''city'', ''building'', ''urban'', ''street'']
        then (''urban'', ''gray'')
      else if includesAny keywords [''animal'', ''cat'', ''dog'', ''bird'', ''wildlife'']
        then (''animal'', ''orange'')
      else if includesAny keywords [''food'', ''cooking'', ''meal'', ''restaurant'']
        then (''food'', ''red'')
      else (''abstract'', ''blue''))"

text \<open>
  \<open>const [width, height] = size.split("x").map(Number)\<close>: a missing second part is
  \<open>undefined\<close>, which the template literal prints as such.
\<close>

definition generateAdvancedPlaceholder :: "StringLib \<Rightarrow> string \<Rightarrow> string \<Rightarrow> string option" where
  "generateAdvancedPlaceholder lib prompt sz =
     (let parts = map (numberText lib) (split CHR ''x'' sz);
          width = (case parts of w # _ \<Rightarrow> w | [] \<Rightarrow> ''undefined'');
          height = (case parts of _ # h # _ \<Rightarrow> h | _ \<Rightarrow> ''undefined'');
          keywords = split CHR '' '' (toLowerCase lib prompt);
          (category, color) = categoryAndColor keywords;
          truncatedPrompt = (if length prompt > 100 then take 100 prompt @ ''...'' else prompt)
      in (case encodeURIComponent lib truncatedPrompt of
            None \<Rightarrow> None
          | Some encodedPrompt \<Rightarrow>
              Some (''/placeholder.svg?height='' @ height @ ''&width='' @ width @ ''&text=''
                    @ encodedPrompt @ ''&category='' @ category @ ''&color='' @ color)))"

text \<open>
  JavaScript on JSON values. \<open>truthy\<close> is the test of \<open>!v\<close> and \<open>v || d\<close>.
  \<open>property v k\<close> is \<open>v.k\<close> for a value that is not \<open>null\<close> (on \<open>null\<close> the source
  throws, and every use below tests for it first): the field of an object, \<open>undefined\<close>
  (\<open>None\<close>) when the object lacks it and on a boolean, a number, a string or an array,
  none of which has a property of the names read here (\<open>prompt\<close>, \<open>model\<close>,
  \<open>options\<close>, \<open>count\<close>, \<open>size\<close>, \<open>quality\<close>, \<open>style\<close>).
\<close>

fun truthy :: "json \<Rightarrow> bool" where
  "truthy JNull = False"
| "truthy (JBool b) = b"
| "truthy (JNum n) = (n \<noteq> 0)"
| "truthy (JStr t) = (t \<noteq> [])"
| "truthy (JArr xs) = True"
| "truthy (JObj fs) = True"

fun property :: "json \<Rightarrow> string \<Rightarrow> json option" where
  "property (JObj fs) k = field fs k"
| "property v k = None"

definition orElse :: "json option \<Rightarrow> json \<Rightarrow> json" where
  "orElse v d = (case v of None \<Rightarrow> d | Some j \<Rightarrow> if truthy j then j else d)"

text \<open>
  The destructuring of line 20, for a body that is not \<open>null\<close>: a default stands in
  for a property that is \<open>undefined\<close>, not for one that is \<open>null\<close>.
\<close>

definition promptOf :: "json \<Rightarrow> json option" where
  "promptOf body = property body ''prompt''"

definition modelOf :: "json \<Rightarrow> json" where
  "modelOf body =
     (case property body ''model'' of
        None \<Rightarrow> JStr ''black-forest-labs/flux-schnell'' | Some m \<Rightarrow> m)"

definition optionsOf :: "json \<Rightarrow> json" where
  "optionsOf body = (case property body ''options'' of None \<Rightarrow> JObj [] | Some opts \<Rightarrow> opts)"

text \<open>\<open>options.size || "1024x1024"\<close>, for options that are not \<open>null\<close>.\<close>

definition sizeOf :: "json \<Rightarrow> json" where
  "sizeOf options = orElse (property options ''size'') (JStr ''1024x1024'')"

text \<open>
  The call \<open>generateAdvancedPlaceholder(prompt, size)\<close> of line 72 on values of any
  kind, \<open>None\<close> when it throws: \<open>size.split\<close> is a function only when the size is a
  string, \<open>prompt.toLowerCase\<close> only when the prompt is, and JSON holds no function.
\<close>

definition callPlaceholder :: "StringLib \<Rightarrow> json \<Rightarrow> json \<Rightarrow> string option" where
  "callPlaceholder lib prompt sz =
     (case sz of
        JStr sizeText \<Rightarrow>
          (case prompt of
             JStr promptText \<Rightarrow> generateAdvancedPlaceholder lib promptText sizeText
           | _ \<Rightarrow> None)
      | _ \<Rightarrow> None)"

datatype ImageUpstream =
    ThrowsInTry
  | StatusNotOk
  | OkData "json option list option"

text \<open>
  What the inner \<open>try\<close> block meets once the request is sent. \<open>ThrowsInTry\<close>:
  \<open>fetch\<close> or the reading of the body throws. \<open>StatusNotOk\<close>: \<open>response.ok\<close> is false.
  \<open>OkData d\<close>: the body is read and \<open>d\<close> is \<open>data.data\<close>, \<open>None\<close> when it is missing,
  else the \<open>url\<close> of each of its elements (\<open>None\<close> for an element without one). A
  \<open>data.data\<close> that is not an array, or that holds \<open>null\<close>, makes line 51 or line 54
  throw inside the block, or fail the test of line 51; the handler goes on to line 72 in
  both cases, as it does on \<open>ThrowsInTry\<close>, which stands for them.
\<close>

record ImageEntry =
  image_url :: "json option"
  image_prompt :: json
  image_model :: json

record ImageMetadata =
  meta_model :: json
  meta_prompt :: json
  meta_timestamp :: string
  meta_provider :: string
  meta_fallback :: "bool option"

text \<open>
  \<open>details\<close> of the emergency response is the message of the error caught: the text
  of an \<open>Error\<close> that the code itself throws, or the message that the runtime gives to
  the TypeError, URIError or SyntaxError it raises.
\<close>

datatype Details = Text string | RuntimeMessage

record ImageResponse =
  status :: nat
  images :: "ImageEntry list"
  image_metadata :: "ImageMetadata option"
  body_error :: "string option"
  body_details :: "Details option"
  body_fallback :: "bool option"

definition emergencyFallback :: "Details \<Rightarrow> string \<Rightarrow> ImageResponse" where
  "emergencyFallback details now =
     \<lparr> status = 200,
       images = [\<lparr> image_url =
                     Some (JStr ''/placeholder.svg?height=512&width=512&text=Image%20Generation%20Error''),
                   image_prompt = JStr ''Error generating image'',
                   image_model = JStr ''fallback'' \<rparr>],
       image_metadata = Some \<lparr> meta_model = JStr ''fallback'',
                               meta_prompt = JStr ''Error generating image'',
                               meta_timestamp = now, meta_provider = ''Emergency Fallback'',
                               meta_fallback = None \<rparr>,
       body_error = Some ''Image generation failed'',
       body_details = Some details,
       body_fallback = Some True \<rparr>"

definition promptRequired :: ImageResponse where
  "promptRequired =
     \<lparr> status = 400, images = [], image_metadata = None,
       body_error = Some ''Prompt is required'', body_details = None, body_fallback = None \<rparr>"

text \<open>
  The handler. Line 20 throws when the body is unreadable or \<open>null\<close>. Line 26 throws
  without a key. With options that are \<open>null\<close>, line 41 throws inside the inner \<open>try\<close>,
  before anything is sent, the inner \<open>catch\<close> swallows it, and line 72 throws again,
  outside. Each of these, and a throw inside \<open>generateAdvancedPlaceholder\<close>, ends in the
  outer \<open>catch\<close>.
\<close>

definition imagePOST ::
  "StringLib \<Rightarrow> RouteEnv \<Rightarrow> json option \<Rightarrow> ImageUpstream \<Rightarrow> string \<Rightarrow> ImageResponse" where
  "imagePOST lib env request upstream now =
     (case request of
        None \<Rightarrow> emergencyFallback RuntimeMessage now
      | Some JNull \<Rightarrow> emergencyFallback RuntimeMessage now
      | Some body \<Rightarrow>
          (case promptOf body of
             None \<Rightarrow> promptRequired
           | Some prompt \<Rightarrow>
               if \<not> truthy prompt then promptRequired
               else
                 (case getRandomApiKey env of
                    Inl e \<Rightarrow> emergencyFallback (Text e) now
                  | Inr apiKey \<Rightarrow>
                      if optionsOf body = JNull then emergencyFallback RuntimeMessage now
                      else
                        (case upstream of
                           OkData (Some (u # us)) \<Rightarrow>
                             \<lparr> status = 200,
                               images = map (\<lambda>url. \<lparr> image_url = url, image_prompt = prompt,
                                                     image_model = modelOf body \<rparr>) (u # us),
                               image_metadata =
                                 Some \<lparr> meta_model = modelOf body, meta_prompt = prompt,
                                        meta_timestamp = now, meta_provider = ''OpenRouter'',
                                        meta_fallback = None \<rparr>,
                               body_error = None, body_details = None,
                               body_fallback = None \<rparr>
                         | _ \<Rightarrow>
                             (case callPlaceholder lib prompt (sizeOf (optionsOf body)) of
                                None \<Rightarrow> emergencyFallback RuntimeMessage now
                              | Some placeholderImageUrl \<Rightarrow>
                                  \<lparr> status = 200,
                                    images = [\<lparr> image_url = Some (JStr placeholderImageUrl),
                                                image_prompt = prompt,
                                                image_model = modelOf body \<rparr>],
                                    image_metadata =
                                      Some \<lparr> meta_model = modelOf body, meta_prompt = prompt,
                                             meta_timestamp = now,
                                             meta_provider = ''MOD AI Placeholder'',
                                             meta_fallback = Some True \<rparr>,
                                    body_error = None, body_details = None,
                                    body_fallback = None \<rparr>)))))"


section \<open>A small store, for the examples\<close>

definition demoMessage :: "string \<Rightarrow> Role \<Rightarrow> string \<Rightarrow> ConversationMessage" where
  "demoMessage i r c =
     \<lparr> msg_id = i, content = c, role = r, timestamp = 1000,
       msg_model = None, metadata = None \<rparr>"

definition demoConversation :: Conversation where
  "demoConversation =
     \<lparr> conv_id = ''c1'', title = ''Hello'',
       messages = [demoMessage ''m1'' User ''Hello'',
                   demoMessage ''m2'' Assistant ''Hi there!'',
                   demoMessage ''m3'' User ''Tell me more''],
       model = ''gemma2-9b-it'', createdAt = 1000, updatedAt = 1000 \<rparr>"

definition demoMemory :: ConversationMemory where
  "demoMemory = \<lparr> conversations = [(''c1'', demoConversation)],
                  currentConversationId = Some ''c1'' \<rparr>"

definition demoCall :: "Role \<Rightarrow> string \<Rightarrow> AddCall" where
  "demoCall r c =
     \<lparr> call_conversationId = ''c1'',
       call_message = \<lparr> new_content = c, new_role = r, new_model = None, new_metadata = None \<rparr>,
       call_tid = 2000, call_rnd = ''abc'', call_tm = 2000, call_tu = 2000 \<rparr>"

text \<open>The store after one \<open>createConversation\<close> on an empty store, and calls to it.\<close>

definition freshMemory :: ConversationMemory where
  "freshMemory = snd (createConversation emptyMemory ''gemma2-9b-it'' 5 ''r'' 5 5)"

definition freshConversation :: Conversation where
  "freshConversation =
     \<lparr> conv_id = ''conv_5_r'', title = ''New Conversation'', messages = [],
       model = ''gemma2-9b-it'', createdAt = 5, updatedAt = 5 \<rparr>"

definition freshCall :: "Role \<Rightarrow> string \<Rightarrow> AddCall" where
  "freshCall r c =
     \<lparr> call_conversationId = ''conv_5_r'',
       call_message = \<lparr> new_content = c, new_role = r, new_model = None, new_metadata = None \<rparr>,
       call_tid = 6, call_rnd = ''s'', call_tm = 6, call_tu = 6 \<rparr>"

text \<open>
  A store that holds \<open>MAX_CONVERSATIONS\<close> conversations, the \<open>i\<close>-th one last updated
  at the time value \<open>1000 + i\<close>.
\<close>

definition fiftyConversation :: "nat \<Rightarrow> Conversation" where
  "fiftyConversation i =
     \<lparr> conv_id = replicate (Suc i) CHR ''k'', title = ''New Conversation'', messages = [],
       model = ''gemma2-9b-it'', createdAt = 1000 + int i, updatedAt = 1000 + int i \<rparr>"

definition fiftyMemory :: ConversationMemory where
  "fiftyMemory =
     \<lparr> conversations = map (\<lambda>i. (replicate (Suc i) CHR ''k'', fiftyConversation i)) [0..<50],
       currentConversationId = None \<rparr>"

text \<open>
  A stand-in for the runtime's date functions in the examples: it agrees with
  \<open>toISOString\<close> and \<open>Date.parse\<close> on the two dates the examples use, the time values
  1000 and 2000.
\<close>

definition demoLib :: DateLib where
  "demoLib =
     \<lparr> Date_parse = (\<lambda>t. if t = ''1970-01-01T00:00:01.000Z'' then Some 1000
                          else if t = ''1970-01-01T00:00:02.000Z'' then Some 2000 else None),
       toISOString = (\<lambda>ms. if ms = 1000 then ''1970-01-01T00:00:01.000Z''
                           else ''1970-01-01T00:00:02.000Z'') \<rparr>"

text \<open>A well-formed snapshot of 51 conversations, each without messages.\<close>

definition snapshotConversation :: "nat \<Rightarrow> json" where
  "snapshotConversation i =
     JObj [(''id'', JStr (replicate (Suc i) CHR ''k'')),
           (''title'', JStr ''New Conversation''),
           (''messages'', JArr []),
           (''model'', JStr ''gemma2-9b-it''),
           (''createdAt'', JStr ''1970-01-01T00:00:01.000Z''),
           (''updatedAt'', JStr ''1970-01-01T00:00:01.000Z'')]"

definition crowdedSnapshot :: json where
  "crowdedSnapshot = JArr (map snapshotConversation [0..<51])"

text \<open>A well-formed snapshot of one conversation with 101 messages.\<close>

definition snapshotMessage :: "nat \<Rightarrow> json" where
  "snapshotMessage i =
     JObj [(''content'', JStr ''Hello''),
           (''role'', JStr ''user''),
           (''id'', JStr (replicate (Suc i) CHR ''m'')),
           (''timestamp'', JStr ''1970-01-01T00:00:01.000Z'')]"

definition longSnapshot :: json where
  "longSnapshot =
     JArr [JObj [(''id'', JStr ''c1''),
                 (''title'', JStr ''Hello''),
                 (''messages'', JArr (map snapshotMessage [0..<101])),
                 (''model'', JStr ''gemma2-9b-it''),
                 (''createdAt'', JStr ''1970-01-01T00:00:01.000Z''),
                 (''updatedAt'', JStr ''1970-01-01T00:00:01.000Z'')]]"

text \<open>The two stores that these snapshots describe.\<close>

definition crowdedConversation :: "nat \<Rightarrow> Conversation" where
  "crowdedConversation i =
     \<lparr> conv_id = replicate (Suc i) CHR ''k'', title = ''New Conversation'', messages = [],
       model = ''gemma2-9b-it'', createdAt = 1000, updatedAt = 1000 \<rparr>"

definition crowdedMemory :: ConversationMemory where
  "crowdedMemory =
     \<lparr> conversations = map (\<lambda>i. (replicate (Suc i) CHR ''k'', crowdedConversation i)) [0..<51],
       currentConversationId = None \<rparr>"

definition longConversation :: Conversation where
  "longConversation =
     \<lparr> conv_id = ''c1'', title = ''Hello'',
       messages = map (\<lambda>i. demoMessage (replicate (Suc i) CHR ''m'') User ''Hello'') [0..<101],
       model = ''gemma2-9b-it'', createdAt = 1000, updatedAt = 1000 \<rparr>"

definition longMemory :: ConversationMemory where
  "longMemory = \<lparr> conversations = [(''c1'', longConversation)], currentConversationId = None \<rparr>"

section \<open>Requests and a runtime, for the examples of the routes\<close>

text \<open>
  A stand-in for the runtime's string functions: it agrees with them on texts of
  lower-case letters, digits and spaces, and on decimal numerals.
\<close>

definition demoStrings :: StringLib where
  "demoStrings =
     \<lparr> toLowerCase = (\<lambda>t. t),
       numberText = (\<lambda>t. t),
       encodeURIComponent =
         (\<lambda>t. Some (concat (map (\<lambda>c. if c = CHR '' '' then ''%20'' else [c]) t))) \<rparr>"

definition demoEnv :: RouteEnv where
  "demoEnv = \<lparr> GROQ_API_KEY = Some ''gsk'', OPENROUTER_API_KEYS = [''key1'', ''key2''],
               random = 1 / 2 \<rparr>"

definition noKeysEnv :: RouteEnv where
  "noKeysEnv = \<lparr> GROQ_API_KEY = None, OPENROUTER_API_KEYS = [], random = 1 / 2 \<rparr>"

definition demoImageRequest :: json where
  "demoImageRequest = JObj [(''prompt'', JStr ''a cat'')]"

definition nullOptionsRequest :: json where
  "nullOptionsRequest = JObj [(''prompt'', JStr ''a cat''), (''options'', JNull)]"

definition numericSizeRequest :: json where
  "numericSizeRequest =
     JObj [(''prompt'', JStr ''a cat''), (''options'', JObj [(''size'', JNum 512)])]"

definition demoChatResult :: ChatResult where
  "demoChatResult = \<lparr> result_text = ''Hello'', result_finishReason = Some ''stop'' \<rparr>"


section \<open>Properties of the conversation store\<close>

subsection \<open>Facts about the map and the helpers\<close>

lemma map_get_map_set_same: "map_get (map_set m k v) k = Some v"
  by (induction m) auto

lemma map_get_map_set_other: "k' \<noteq> k \<Longrightarrow> map_get (map_set m k v) k' = map_get m k'"
  by (induction m) auto

lemma map_get_map_delete:
  "map_get (map_delete m k) k' = (if k' = k then None else map_get m k')"
  by (induction m) (auto simp: map_delete_def)

lemma length_slice_last: "length (slice_last n xs) = min n (length xs)"
  by (simp add: slice_last_def)

lemma slice_last_snoc:
  "0 < n \<Longrightarrow> slice_last n (slice_last n xs @ [y]) = slice_last n (xs @ [y])"
proof (cases "length xs \<le> n")
  case True
  then show ?thesis by (simp add: slice_last_def)
next
  case False
  then have "Suc (length xs) - n = Suc (length xs - n)" by simp
  with False show ?thesis by (simp add: slice_last_def)
qed

lemma slice_last_append:
  "n \<le> length ys \<Longrightarrow> slice_last n (xs @ ys) = slice_last n ys"
  by (simp add: slice_last_def)

lemma slice_last_Nil_iff: "0 < n \<Longrightarrow> slice_last n xs = [] \<longleftrightarrow> xs = []"
  by (cases xs) (auto simp: slice_last_def)

lemma slice_last_short: "length xs \<le> n \<Longrightarrow> slice_last n xs = xs"
  by (simp add: slice_last_def)

lemma messages_pushMessage:
  "messages (pushMessage c m tid rnd tm tu) =
     slice_last MAX_MESSAGES_PER_CONVERSATION
       (messages c @ [\<lparr> msg_id = newMessageId tid rnd, content = new_content m,
                         role = new_role m, timestamp = tm,
                         msg_model = new_model m, metadata = new_metadata m \<rparr>])"
  by (auto simp: pushMessage_def Let_def slice_last_def)

lemma title_pushMessage:
  "title (pushMessage c m tid rnd tm tu) =
     (if messages c = [] \<and> new_role m = User then titleOf (new_content m) else title c)"
  by (auto simp: pushMessage_def Let_def)

lemma conv_id_pushMessage: "conv_id (pushMessage c m tid rnd tm tu) = conv_id c"
  by (auto simp: pushMessage_def Let_def)

subsection \<open>The context window\<close>

lemma estimateTokens_ceiling:
  "int (estimateTokens m) = \<lceil>real (length (content m)) / 4\<rceil>"
proof -
  have "\<lceil>real (length (content m)) / 4\<rceil> = - \<lfloor>- (real (length (content m)) / 4)\<rfloor>"
    by (simp add: ceiling_def)
  also have "\<dots> = - \<lfloor>real_of_int (- int (length (content m))) / real_of_int 4\<rfloor>"
    by simp
  also have "\<dots> = - ((- int (length (content m))) div 4)"
    by (simp only: floor_divide_of_int_eq)
  also have "\<dots> = int ((length (content m) + 3) div 4)"
    by (simp add: zdiv_int)
  finally show ?thesis by (simp add: estimateTokens_def)
qed

lemma tokensOf_drop_Suc:
  "i < length msgs \<Longrightarrow>
   tokensOf (drop i msgs) = estimateTokens (msgs ! i) + tokensOf (drop (Suc i) msgs)"
  by (simp add: tokensOf_def Cons_nth_drop_Suc [symmetric])

lemma contextLoop_window:
  "n \<le> length msgs \<Longrightarrow>
   \<exists>k\<le>n. contextLoop msgs B n (tokensOf (drop n msgs)) (drop n msgs) = drop k msgs
     \<and> (\<forall>j. k \<le> j \<and> j < n \<longrightarrow> int (tokensOf (drop j msgs)) \<le> B \<or> Suc j = length msgs)
     \<and> (0 < k \<longrightarrow> B < int (tokensOf (drop (k - 1) msgs)) \<and> k < length msgs)"
proof (induction n)
  case 0
  then show ?case by simp
next
  case (Suc i)
  then have i: "i < length msgs" by simp
  have dropi: "drop i msgs = msgs ! i # drop (Suc i) msgs"
    using i by (simp add: Cons_nth_drop_Suc)
  have tok: "tokensOf (drop i msgs) = estimateTokens (msgs ! i) + tokensOf (drop (Suc i) msgs)"
    using i by (rule tokensOf_drop_Suc)
  show ?case
  proof (cases "int (tokensOf (drop (Suc i) msgs)) + int (estimateTokens (msgs ! i)) > B
                 \<and> length (drop (Suc i) msgs) > 0")
    case True
    then have "contextLoop msgs B (Suc i) (tokensOf (drop (Suc i) msgs)) (drop (Suc i) msgs)
                 = drop (Suc i) msgs"
      by (simp add: Let_def)
    moreover have "B < int (tokensOf (drop (Suc i - 1) msgs))"
      using True tok by simp
    moreover have "Suc i < length msgs" using True by simp
    ultimately show ?thesis
      by (intro exI [of _ "Suc i"]) auto
  next
    case False
    then have step: "contextLoop msgs B (Suc i) (tokensOf (drop (Suc i) msgs)) (drop (Suc i) msgs)
                 = contextLoop msgs B i (tokensOf (drop i msgs)) (drop i msgs)"
      using tok dropi by (auto simp: Let_def add.commute)
    from Suc.IH i obtain k where k: "k \<le> i"
      "contextLoop msgs B i (tokensOf (drop i msgs)) (drop i msgs) = drop k msgs"
      "\<forall>j. k \<le> j \<and> j < i \<longrightarrow> int (tokensOf (drop j msgs)) \<le> B \<or> Suc j = length msgs"
      "0 < k \<longrightarrow> B < int (tokensOf (drop (k - 1) msgs)) \<and> k < length msgs"
      by auto
    have acc: "int (tokensOf (drop i msgs)) \<le> B \<or> Suc i = length msgs"
      using False tok i by auto
    have "\<forall>j. k \<le> j \<and> j < Suc i \<longrightarrow> int (tokensOf (drop j msgs)) \<le> B \<or> Suc j = length msgs"
      using k(3) acc by (auto simp: less_Suc_eq)
    with k step show ?thesis
      by (intro exI [of _ k]) auto
  qed
qed

text \<open>
  C1. For a conversation \<open>c\<close> of the store and any integer budget \<open>B\<close>,
  \<open>getContextMessages\<close> returns \<open>drop k (messages c)\<close> for some \<open>k\<close>: a contiguous run
  that ends with the most recent message, in chronological order. The estimate of a
  message is \<open>ceil(length(content) / 4)\<close>. Every message of the result but the most recent
  was taken because the running total with it stayed within \<open>B\<close>; the most recent one is
  taken whatever \<open>B\<close> is; and if a message was left out (\<open>0 < k\<close>), the newest message left
  out would have pushed the total over \<open>B\<close>. So on a conversation that has a message the
  result is not empty and its last message is the conversation's last.
\<close>

theorem getContextMessages_window:
  assumes "map_get (conversations s) cid = Some c"
  shows "\<exists>k. getContextMessages s cid B = drop k (messages c)
     \<and> (\<forall>m. int (estimateTokens m) = \<lceil>real (length (content m)) / 4\<rceil>)
     \<and> (\<forall>j. k \<le> j \<and> Suc j < length (messages c)
            \<longrightarrow> int (tokensOf (drop j (messages c))) \<le> B)
     \<and> (0 < k \<longrightarrow> B < int (tokensOf (drop (k - 1) (messages c))))
     \<and> (messages c \<noteq> [] \<longrightarrow>
            k < length (messages c)
          \<and> getContextMessages s cid B \<noteq> []
          \<and> last (getContextMessages s cid B) = last (messages c))"
proof -
  let ?ms = "messages c"
  have run: "getContextMessages s cid B = contextLoop ?ms B (length ?ms) 0 []"
    using assms by (simp add: getContextMessages_def)
  from contextLoop_window [of "length ?ms" ?ms B]
  obtain k where k: "k \<le> length ?ms"
    "contextLoop ?ms B (length ?ms) 0 [] = drop k ?ms"
    "\<forall>j. k \<le> j \<and> j < length ?ms \<longrightarrow> int (tokensOf (drop j ?ms)) \<le> B \<or> Suc j = length ?ms"
    "0 < k \<longrightarrow> B < int (tokensOf (drop (k - 1) ?ms)) \<and> k < length ?ms"
    by (auto simp: tokensOf_def)
  have lt: "k < length ?ms" if "?ms \<noteq> []"
    using k(1,4) that by (cases k) auto
  have "\<forall>j. k \<le> j \<and> Suc j < length ?ms \<longrightarrow> int (tokensOf (drop j ?ms)) \<le> B"
    using k(3) by auto
  moreover have "0 < k \<longrightarrow> B < int (tokensOf (drop (k - 1) ?ms))"
    using k(4) by simp
  moreover have "?ms \<noteq> [] \<longrightarrow> k < length ?ms \<and> drop k ?ms \<noteq> [] \<and> last (drop k ?ms) = last ?ms"
    using lt by auto
  ultimately show ?thesis
    using run k(2) estimateTokens_ceiling by (intro exI [of _ k]) simp
qed

theorem getContextMessages_window_witness:
  "map_get (conversations demoMemory) ''c1'' = Some demoConversation
   \<and> getContextMessages demoMemory ''c1'' 6 = drop 1 (messages demoConversation)
   \<and> getContextMessages demoMemory ''c1'' (- 5) = drop 2 (messages demoConversation)
   \<and> (\<exists>k. getContextMessages demoMemory ''c1'' 6 = drop k (messages demoConversation)
          \<and> k < length (messages demoConversation))"
proof -
  have h: "map_get (conversations demoMemory) ''c1'' = Some demoConversation"
    by (simp add: demoMemory_def)
  have ne: "messages demoConversation \<noteq> []"
    by (simp add: demoConversation_def)
  have "getContextMessages demoMemory ''c1'' 6 = drop 1 (messages demoConversation)"
    by code_simp
  moreover have "getContextMessages demoMemory ''c1'' (- 5) = drop 2 (messages demoConversation)"
    by code_simp
  ultimately show ?thesis
    using h ne getContextMessages_window [OF h, of 6] by auto
qed

subsection \<open>Sequences of addMessage\<close>

lemma appendedTo_snoc:
  "appendedTo cid (calls @ [call]) =
     (if call_conversationId call = cid then appendedTo cid calls @ [builtMessage call]
      else appendedTo cid calls)"
  by (simp add: appendedTo_def)

lemma applyAdd_other:
  "call_conversationId call \<noteq> cid \<Longrightarrow>
   map_get (conversations (applyAdd s call)) cid = map_get (conversations s) cid"
  by (simp add: applyAdd_def addMessage_def map_get_map_set_other split: option.splits)

lemma applyAdd_same:
  "map_get (conversations s) (call_conversationId call) = Some c \<Longrightarrow>
   map_get (conversations (applyAdd s call)) (call_conversationId call) =
     Some (pushMessage c (call_message call) (call_tid call) (call_rnd call)
             (call_tm call) (call_tu call))"
  by (simp add: applyAdd_def addMessage_def map_get_map_set_same)

lemma messages_pushMessage_call:
  "messages (pushMessage c (call_message call) (call_tid call) (call_rnd call)
               (call_tm call) (call_tu call)) =
     slice_last MAX_MESSAGES_PER_CONVERSATION (messages c @ [builtMessage call])"
  by (simp add: messages_pushMessage builtMessage_def)

lemma addMessages_snoc: "addMessages s (calls @ [call]) = applyAdd (addMessages s calls) call"
  by (simp add: addMessages_def)

lemma addMessages_conversation:
  assumes "map_get (conversations s) cid = Some c"
  shows "\<exists>c'. map_get (conversations (addMessages s calls)) cid = Some c'
     \<and> messages c' =
         (if appendedTo cid calls = [] then messages c
          else slice_last MAX_MESSAGES_PER_CONVERSATION (messages c @ appendedTo cid calls))
     \<and> title c' =
         (if messages c = [] \<and> appendedTo cid calls \<noteq> []
              \<and> role (hd (appendedTo cid calls)) = User
          then titleOf (content (hd (appendedTo cid calls))) else title c)"
proof (induction calls rule: rev_induct)
  case Nil
  then show ?case using assms by (simp add: addMessages_def appendedTo_def)
next
  case (snoc call calls)
  let ?M = MAX_MESSAGES_PER_CONVERSATION
  have M: "0 < ?M" by (simp add: MAX_MESSAGES_PER_CONVERSATION_def)
  from snoc obtain c1 where c1:
    "map_get (conversations (addMessages s calls)) cid = Some c1"
    "messages c1 =
       (if appendedTo cid calls = [] then messages c
        else slice_last ?M (messages c @ appendedTo cid calls))"
    "title c1 =
       (if messages c = [] \<and> appendedTo cid calls \<noteq> [] \<and> role (hd (appendedTo cid calls)) = User
        then titleOf (content (hd (appendedTo cid calls))) else title c)"
    by blast
  show ?case
  proof (cases "call_conversationId call = cid")
    case False
    then show ?thesis
      using c1 by (simp add: addMessages_snoc applyAdd_other appendedTo_snoc)
  next
    case True
    let ?c2 = "pushMessage c1 (call_message call) (call_tid call) (call_rnd call)
                 (call_tm call) (call_tu call)"
    have get: "map_get (conversations (addMessages s (calls @ [call]))) cid = Some ?c2"
      using applyAdd_same [of "addMessages s calls" call c1] c1(1) True
      by (simp add: addMessages_snoc)
    have empty1: "messages c1 = [] \<longleftrightarrow> messages c = [] \<and> appendedTo cid calls = []"
      using c1(2) M by (auto simp: slice_last_Nil_iff)
    have msgs: "messages ?c2 = slice_last ?M (messages c @ appendedTo cid calls @ [builtMessage call])"
      using c1(2) M by (auto simp: messages_pushMessage_call slice_last_snoc)
    have ttl: "title ?c2 =
       (if messages c = [] \<and> role (hd (appendedTo cid calls @ [builtMessage call])) = User
        then titleOf (content (hd (appendedTo cid calls @ [builtMessage call]))) else title c)"
      using c1(3) empty1
      by (cases "appendedTo cid calls") (auto simp: title_pushMessage builtMessage_def)
    show ?thesis
      using get msgs ttl True by (simp add: appendedTo_snoc)
  qed
qed

text \<open>
  C2. Take any store, a conversation \<open>c\<close> it holds under \<open>cid\<close>, and any sequence of
  \<open>addMessage\<close> calls (to this conversation or to others). After the sequence the
  conversation is still there, and if at least one call appended to it, it holds at most
  \<open>MAX_MESSAGES_PER_CONVERSATION = 100\<close> messages, namely the last 100 of its old
  messages followed by the appended ones, in that order. A conversation that started
  within the cap stays within it after every call. Once more than 100 messages have been
  appended, exactly the 100 most recently appended remain, in the order of the calls.
\<close>

theorem addMessage_keeps_most_recent:
  assumes "map_get (conversations s) cid = Some c"
  shows "\<exists>c'. map_get (conversations (addMessages s calls)) cid = Some c'
     \<and> MAX_MESSAGES_PER_CONVERSATION = 100
     \<and> (appendedTo cid calls \<noteq> [] \<longrightarrow>
            length (messages c') \<le> 100
          \<and> messages c' = slice_last 100 (messages c @ appendedTo cid calls))
     \<and> (length (messages c) \<le> 100 \<longrightarrow> length (messages c') \<le> 100)
     \<and> (100 < length (appendedTo cid calls) \<longrightarrow>
            length (messages c') = 100
          \<and> messages c' = drop (length (appendedTo cid calls) - 100) (appendedTo cid calls))"
proof -
  from addMessages_conversation [OF assms, of calls] obtain c' where c':
    "map_get (conversations (addMessages s calls)) cid = Some c'"
    "messages c' =
       (if appendedTo cid calls = [] then messages c
        else slice_last MAX_MESSAGES_PER_CONVERSATION (messages c @ appendedTo cid calls))"
    by blast
  have M: "MAX_MESSAGES_PER_CONVERSATION = 100"
    by (simp add: MAX_MESSAGES_PER_CONVERSATION_def)
  have a: "appendedTo cid calls \<noteq> [] \<longrightarrow>
             length (messages c') \<le> 100
           \<and> messages c' = slice_last 100 (messages c @ appendedTo cid calls)"
    using c'(2) M by (simp add: length_slice_last)
  have b: "length (messages c) \<le> 100 \<longrightarrow> length (messages c') \<le> 100"
    using c'(2) M by (simp add: length_slice_last)
  have c: "100 < length (appendedTo cid calls) \<longrightarrow>
             length (messages c') = 100
           \<and> messages c' = drop (length (appendedTo cid calls) - 100) (appendedTo cid calls)"
  proof
    assume big: "100 < length (appendedTo cid calls)"
    then have ne: "appendedTo cid calls \<noteq> []" by auto
    have "slice_last 100 (messages c @ appendedTo cid calls) = slice_last 100 (appendedTo cid calls)"
      using big by (simp add: slice_last_append)
    with c'(2) M ne big show "length (messages c') = 100
           \<and> messages c' = drop (length (appendedTo cid calls) - 100) (appendedTo cid calls)"
      by (simp add: slice_last_def)
  qed
  show ?thesis using c'(1) M a b c by blast
qed

text \<open>A conversation of 3 messages receives 101 more: the 100 newest of the 101 remain.\<close>

theorem addMessage_keeps_most_recent_witness:
  "map_get (conversations demoMemory) ''c1'' = Some demoConversation
   \<and> length (appendedTo ''c1'' (replicate 101 (demoCall User ''again''))) = 101
   \<and> (\<exists>c'. map_get (conversations
               (addMessages demoMemory (replicate 101 (demoCall User ''again'')))) ''c1'' = Some c'
          \<and> length (messages c') = 100
          \<and> messages c' = replicate 100 (builtMessage (demoCall User ''again'')))"
proof -
  have h: "map_get (conversations demoMemory) ''c1'' = Some demoConversation"
    by (simp add: demoMemory_def)
  have ap: "appendedTo ''c1'' (replicate 101 (demoCall User ''again''))
              = replicate 101 (builtMessage (demoCall User ''again''))"
    by (simp add: appendedTo_def demoCall_def)
  have "drop (101 - 100) (replicate 101 (builtMessage (demoCall User ''again'')))
          = replicate 100 (builtMessage (demoCall User ''again''))"
    by simp
  then show ?thesis
    using h ap addMessage_keeps_most_recent [OF h, of "replicate 101 (demoCall User ''again'')"]
    by auto
qed

text \<open>
  The title over a sequence of \<open>addMessage\<close> calls. \<open>createConversation\<close> gives the new
  conversation the placeholder title \<open>New Conversation\<close> and no message. The title of a
  conversation is decided by the first message appended to it while it is empty: if that
  message has role \<open>user\<close>, the title is its content, cut to the first 50 characters
  followed by \<open>...\<close> when the content is longer than 50; if it has role \<open>assistant\<close>, or
  the conversation already held a message, the title stays what it was, whatever is
  appended later.
\<close>

lemma title_after_appends:
  assumes "map_get (conversations s) cid = Some c"
  shows "(\<forall>c0. map_get (conversations (snd (createConversation s mdl tid rnd tc tu)))
                  (fst (createConversation s mdl tid rnd tc tu)) = Some c0
               \<longrightarrow> title c0 = ''New Conversation'' \<and> messages c0 = [])
     \<and> (\<exists>c'. map_get (conversations (addMessages s calls)) cid = Some c'
          \<and> title c' =
              (if messages c = [] \<and> appendedTo cid calls \<noteq> []
                   \<and> role (hd (appendedTo cid calls)) = User
               then titleOf (content (hd (appendedTo cid calls))) else title c))
     \<and> (\<forall>t. titleOf t = (if length t > 50 then take 50 t @ ''...'' else t))"
proof -
  have created: "\<forall>c0. map_get (conversations (snd (createConversation s mdl tid rnd tc tu)))
                  (fst (createConversation s mdl tid rnd tc tu)) = Some c0
               \<longrightarrow> title c0 = ''New Conversation'' \<and> messages c0 = []"
    by (auto simp: createConversation_def Let_def evictOldest_def map_get_map_delete
        map_get_map_set_same split: list.splits if_splits)
  from addMessages_conversation [OF assms, of calls]
  have seq: "\<exists>c'. map_get (conversations (addMessages s calls)) cid = Some c'
          \<and> title c' =
              (if messages c = [] \<and> appendedTo cid calls \<noteq> []
                   \<and> role (hd (appendedTo cid calls)) = User
               then titleOf (content (hd (appendedTo cid calls))) else title c)"
    by blast
  have "\<forall>t. titleOf t = (if length t > 50 then take 50 t @ ''...'' else t)"
    by (simp add: titleOf_def)
  with created seq show ?thesis by blast
qed

text \<open>
  C7. Line 109 sets the title only when the appended message is the first message of the
  conversation and has role \<open>user\<close>; the comment on line 108 and the claim say that the
  first user message sets it. On the conversation that \<open>createConversation\<close> makes
  (\<open>freshMemory\<close>, title \<open>New Conversation\<close>), a message of the assistant followed by the
  user's \<open>Hello\<close> leaves the title \<open>New Conversation\<close>: the first user message is the
  second message, and the title is overwritten zero times. After an assistant message
  first, no sequence of later appends sets the title. (When the user's message comes
  first it does: \<open>Hello\<close>, and 50 characters and \<open>...\<close> for one of 60.)
\<close>

theorem title_unset_after_assistant_first:
  "map_get (conversations freshMemory) ''conv_5_r'' = Some freshConversation
   \<and> title freshConversation = ''New Conversation''
   \<and> map_option title (map_get (conversations (addMessages freshMemory
         [freshCall Assistant ''Welcome'', freshCall User ''Hello''])) ''conv_5_r'')
       = Some ''New Conversation''
   \<and> (\<forall>calls. map_option title (map_get (conversations (addMessages freshMemory
         (freshCall Assistant ''Welcome'' # calls))) ''conv_5_r'')
       = Some ''New Conversation'')
   \<and> map_option title (map_get (conversations (addMessages freshMemory
         [freshCall User ''Hello'', freshCall Assistant ''Hi''])) ''conv_5_r'')
       = Some ''Hello''
   \<and> map_option title (map_get (conversations (addMessages freshMemory
         [freshCall User (replicate 60 CHR ''a''), freshCall User ''Hello''])) ''conv_5_r'')
       = Some (replicate 50 CHR ''a'' @ ''...'')"
proof -
  have h: "map_get (conversations freshMemory) ''conv_5_r'' = Some freshConversation"
    by code_simp
  have c0: "messages freshConversation = []" "title freshConversation = ''New Conversation''"
    by (simp_all add: freshConversation_def)
  have ap: "appendedTo ''conv_5_r'' (freshCall r t # calls)
              = builtMessage (freshCall r t) # appendedTo ''conv_5_r'' calls" for r t calls
    by (simp add: appendedTo_def freshCall_def)
  have built: "role (builtMessage (freshCall r t)) = r" "content (builtMessage (freshCall r t)) = t"
    for r t
    by (simp_all add: builtMessage_def freshCall_def)
  have after: "map_option title (map_get (conversations (addMessages freshMemory
                 (freshCall r t # calls))) ''conv_5_r'')
       = Some (if r = User then titleOf t else ''New Conversation'')" for r t calls
    using title_after_appends [OF h, where mdl = "''m''" and tid = 0 and rnd = "''r''"
        and tc = 0 and tu = 0 and calls = "freshCall r t # calls"]
    by (auto simp: c0 ap built)
  have t60: "titleOf (replicate 60 CHR ''a'') = replicate 50 CHR ''a'' @ ''...''"
    by (simp add: titleOf_def)
  have t5: "titleOf ''Hello'' = ''Hello''"
    by (simp add: titleOf_def)
  show ?thesis
    using h c0(2) after [of Assistant "''Welcome''"] after [of User "''Hello''"]
      after [of User "replicate 60 CHR ''a''"] t60 t5
    by simp
qed

subsection \<open>Eviction of the oldest conversation\<close>

lemma hd_insort_key:
  "hd (insort_key f x ys) = (if ys = [] \<or> f x \<le> f (hd ys) then x else hd ys)"
  by (cases ys) auto

lemma sort_key_Nil_iff: "sort_key f xs = [] \<longleftrightarrow> xs = []"
  by (metis length_sort list.size(3) length_0_conv)

lemma hd_sort_key_first_minimum:
  "xs \<noteq> [] \<Longrightarrow>
   \<exists>i<length xs. hd (sort_key f xs) = xs ! i
      \<and> (\<forall>j<length xs. f (xs ! i) \<le> f (xs ! j))
      \<and> (\<forall>j<i. f (xs ! i) < f (xs ! j))"
proof (induction xs)
  case Nil
  then show ?case by simp
next
  case (Cons x xs)
  show ?case
  proof (cases "xs = []")
    case True
    then show ?thesis by simp
  next
    case False
    with Cons.IH obtain i where i: "i < length xs" "hd (sort_key f xs) = xs ! i"
      "\<forall>j<length xs. f (xs ! i) \<le> f (xs ! j)" "\<forall>j<i. f (xs ! i) < f (xs ! j)"
      by blast
    have ne: "sort_key f xs \<noteq> []" using False by (simp add: sort_key_Nil_iff)
    show ?thesis
    proof (cases "f x \<le> f (xs ! i)")
      case True
      then have "hd (sort_key f (x # xs)) = x"
        using i(2) by (simp add: hd_insort_key)
      moreover have "\<forall>j<length (x # xs). f x \<le> f ((x # xs) ! j)"
        using True i(3) by (auto simp: nth_Cons split: nat.splits intro: order_trans)
      ultimately show ?thesis
        by (intro exI [of _ 0]) simp
    next
      case False
      then have "hd (sort_key f (x # xs)) = (x # xs) ! Suc i"
        using i(2) ne by (simp add: hd_insort_key)
      moreover have "\<forall>j<length (x # xs). f ((x # xs) ! Suc i) \<le> f ((x # xs) ! j)"
        using False i(3) by (auto simp: nth_Cons split: nat.splits)
      moreover have "\<forall>j<Suc i. f ((x # xs) ! Suc i) < f ((x # xs) ! j)"
        using False i(4) by (auto simp: nth_Cons split: nat.splits)
      ultimately show ?thesis
        using i(1) by (intro exI [of _ "Suc i"]) simp
    qed
  qed
qed

lemma filter_fst_neq_nth:
  "distinct (map fst m) \<Longrightarrow> i < length m \<Longrightarrow>
   filter (\<lambda>e. fst e \<noteq> fst (m ! i)) m = take i m @ drop (Suc i) m"
proof (induction m arbitrary: i)
  case Nil
  then show ?case by simp
next
  case (Cons e m)
  show ?case
  proof (cases i)
    case 0
    have "filter (\<lambda>a. fst a \<noteq> fst e) m = m"
      using Cons.prems(1) by (auto simp: filter_id_conv image_iff)
    with 0 show ?thesis by simp
  next
    case (Suc k)
    then have k: "k < length m" using Cons.prems(2) by simp
    then have "fst (m ! k) \<in> fst ` set m" by (metis nth_mem imageI)
    moreover have "fst e \<notin> fst ` set m" using Cons.prems(1) by simp
    ultimately have "fst e \<noteq> fst (m ! k)" by metis
    with Suc Cons.IH [of k] Cons.prems(1) k show ?thesis by simp
  qed
qed

lemma map_set_fresh: "k \<notin> set (map_keys m) \<Longrightarrow> map_set m k v = m @ [(k, v)]"
  by (induction m) (auto simp: map_keys_def)

lemma evictOldest_first_minimum:
  assumes "keyed m" and "MAX_CONVERSATIONS < map_size m"
  shows "\<exists>i<length m. evictOldest m = take i m @ drop (Suc i) m
      \<and> (\<forall>j<length m. updatedAt (snd (m ! i)) \<le> updatedAt (snd (m ! j)))
      \<and> (\<forall>j<i. updatedAt (snd (m ! i)) < updatedAt (snd (m ! j)))"
proof -
  have ne: "map_values m \<noteq> []"
    using assms(2) by (auto simp: map_values_def map_size_def)
  from hd_sort_key_first_minimum [OF ne, of updatedAt]
  obtain i where i: "i < length m" "hd (sort_key updatedAt (map_values m)) = snd (m ! i)"
    "\<forall>j<length m. updatedAt (snd (m ! i)) \<le> updatedAt (snd (m ! j))"
    "\<forall>j<i. updatedAt (snd (m ! i)) < updatedAt (snd (m ! j))"
    by (auto simp: map_values_def)
  have sne: "sort_key updatedAt (map_values m) \<noteq> []"
    using ne by (simp add: sort_key_Nil_iff)
  have key: "conv_id (snd (m ! i)) = fst (m ! i)"
    using assms(1) i(1) by (auto simp: keyed_def list_all_iff)
  have "evictOldest m = map_delete m (conv_id (hd (sort_key updatedAt (map_values m))))"
    using assms(2) sne by (cases "sort_key updatedAt (map_values m)") (auto simp: evictOldest_def)
  also have "\<dots> = filter (\<lambda>e. fst e \<noteq> fst (m ! i)) m"
    using i(2) key by (simp add: map_delete_def)
  also have "\<dots> = take i m @ drop (Suc i) m"
    using assms(1) i(1) by (intro filter_fst_neq_nth) (auto simp: keyed_def map_keys_def)
  finally show ?thesis using i by blast
qed

text \<open>
  C4, as stated, fails. The store \<open>fiftyMemory\<close> holds 50 conversations, all updated at
  time values from 1000 on. A \<open>createConversation\<close> whose clock reads 500 (the clock was
  set back, or the 50 came from a snapshot) files the new conversation and then evicts
  it: it is the one with the oldest \<open>updatedAt\<close> among the 51. None of the conversations
  present before the call is evicted, the returned id is not in the store, and the marker
  points at it.
\<close>

theorem createConversation_evicts_new_counterexample:
  "map_size (conversations fiftyMemory) = 50
   \<and> fst (createConversation fiftyMemory ''gemma2-9b-it'' 500 ''r'' 500 500) = ''conv_500_r''
   \<and> conversations (snd (createConversation fiftyMemory ''gemma2-9b-it'' 500 ''r'' 500 500))
       = conversations fiftyMemory
   \<and> map_get (conversations (snd (createConversation fiftyMemory ''gemma2-9b-it'' 500 ''r'' 500 500)))
        ''conv_500_r'' = None
   \<and> currentConversationId (snd (createConversation fiftyMemory ''gemma2-9b-it'' 500 ''r'' 500 500))
       = Some ''conv_500_r''"
proof -
  have run: "createConversation fiftyMemory ''gemma2-9b-it'' 500 ''r'' 500 500
     = (''conv_500_r'', \<lparr> conversations = conversations fiftyMemory,
                            currentConversationId = Some ''conv_500_r'' \<rparr>)"
    by code_simp
  have absent: "map_get (conversations fiftyMemory) ''conv_500_r'' = None"
    by code_simp
  have fifty: "map_size (conversations fiftyMemory) = 50"
    by code_simp
  show ?thesis
    using absent fifty by (simp add: run)
qed

lemma keyed_snoc:
  "keyed m \<Longrightarrow> k \<notin> set (map_keys m) \<Longrightarrow> conv_id v = k \<Longrightarrow> keyed (m @ [(k, v)])"
  by (auto simp: keyed_def map_keys_def)

text \<open>
  C4, amended. Let the store hold \<open>MAX_CONVERSATIONS = 50\<close> conversations, each filed
  under its own id, and let the new id be one the store does not hold.
  \<open>createConversation\<close> appends the new conversation and removes exactly one of the 51:
  the first, in insertion order, of those with the least \<open>updatedAt\<close>, where the new
  conversation (updated at the clock reading \<open>tu\<close>, last in insertion order) takes part.
  If some conversation present before the call was updated no later than \<open>tu\<close>, the one
  removed is a conversation present before the call, and the other 49 and the new one
  remain, in their order. The new id is returned and becomes the current one.
\<close>

theorem createConversation_evicts_first_oldest:
  assumes "keyed (conversations s)"
    and "map_size (conversations s) = MAX_CONVERSATIONS"
    and "newConversationId tid rnd \<notin> set (map_keys (conversations s))"
    and "new = (newConversationId tid rnd,
                \<lparr> conv_id = newConversationId tid rnd, title = ''New Conversation'',
                  messages = [], model = mdl, createdAt = tc, updatedAt = tu \<rparr>)"
    and "s' = snd (createConversation s mdl tid rnd tc tu)"
  shows "MAX_CONVERSATIONS = 50
     \<and> fst (createConversation s mdl tid rnd tc tu) = newConversationId tid rnd
     \<and> currentConversationId s' = Some (newConversationId tid rnd)
     \<and> map_size (conversations s') = 50
     \<and> (\<exists>i<51. conversations s' = take i (conversations s @ [new])
                                    @ drop (Suc i) (conversations s @ [new])
           \<and> (\<forall>j<51. updatedAt (snd ((conversations s @ [new]) ! i))
                         \<le> updatedAt (snd ((conversations s @ [new]) ! j)))
           \<and> (\<forall>j<i. updatedAt (snd ((conversations s @ [new]) ! i))
                        < updatedAt (snd ((conversations s @ [new]) ! j)))
           \<and> ((\<exists>e\<in>set (conversations s). updatedAt (snd e) \<le> tu) \<longrightarrow>
                  i < 50
                \<and> conversations s' = take i (conversations s)
                                      @ drop (Suc i) (conversations s) @ [new]))"
proof -
  let ?m = "conversations s"
  let ?all = "?m @ [new]"
  have len: "length ?m = 50"
    using assms(2) by (simp add: map_size_def MAX_CONVERSATIONS_def)
  have m1: "map_set ?m (newConversationId tid rnd) (snd new) = ?all"
    using assms(3,4) by (simp add: map_set_fresh)
  have keyed1: "keyed ?all"
    using assms(1,3,4) by (simp add: keyed_snoc)
  have big: "MAX_CONVERSATIONS < map_size ?all"
    using len by (simp add: map_size_def MAX_CONVERSATIONS_def)
  have s': "s' = \<lparr> conversations = evictOldest ?all,
                   currentConversationId = Some (newConversationId tid rnd) \<rparr>"
    using m1 assms(4,5) by (simp add: createConversation_def Let_def)
  from evictOldest_first_minimum [OF keyed1 big]
  obtain i where i: "i < length ?all" "evictOldest ?all = take i ?all @ drop (Suc i) ?all"
    "\<forall>j<length ?all. updatedAt (snd (?all ! i)) \<le> updatedAt (snd (?all ! j))"
    "\<forall>j<i. updatedAt (snd (?all ! i)) < updatedAt (snd (?all ! j))"
    by blast
  have i51: "i < 51" using i(1) len by simp
  have size': "map_size (conversations s') = 50"
    using s' i(1,2) len by (simp add: map_size_def)
  have old: "i < 50 \<and> conversations s' = take i ?m @ drop (Suc i) ?m @ [new]"
    if ex: "\<exists>e\<in>set ?m. updatedAt (snd e) \<le> tu"
  proof -
    from ex obtain j where j: "j < length ?m" "updatedAt (snd (?m ! j)) \<le> tu"
      by (auto simp: in_set_conv_nth)
    have "i \<noteq> 50"
    proof
      assume "i = 50"
      then have "updatedAt (snd (?all ! 50)) < updatedAt (snd (?all ! j))"
        using i(4) j(1) len by simp
      moreover have "?all ! 50 = new" using len by (simp add: nth_append)
      moreover have "?all ! j = ?m ! j" using j(1) by (simp add: nth_append)
      ultimately show False using j(2) assms(4) by simp
    qed
    with i51 have lt: "i < 50" by simp
    then show ?thesis using s' i(2) len by simp
  qed
  have "\<forall>j<51. updatedAt (snd (?all ! i)) \<le> updatedAt (snd (?all ! j))"
    using i(3) len by simp
  with i51 i(2,4) s' old
  have "\<exists>i<51. conversations s' = take i ?all @ drop (Suc i) ?all
           \<and> (\<forall>j<51. updatedAt (snd (?all ! i)) \<le> updatedAt (snd (?all ! j)))
           \<and> (\<forall>j<i. updatedAt (snd (?all ! i)) < updatedAt (snd (?all ! j)))
           \<and> ((\<exists>e\<in>set ?m. updatedAt (snd e) \<le> tu) \<longrightarrow>
                  i < 50 \<and> conversations s' = take i ?m @ drop (Suc i) ?m @ [new])"
    by (intro exI [of _ i]) simp
  moreover have "fst (createConversation s mdl tid rnd tc tu) = newConversationId tid rnd"
    by (simp add: createConversation_def Let_def)
  ultimately show ?thesis
    using s' size' by (simp add: MAX_CONVERSATIONS_def)
qed

text \<open>
  On \<open>fiftyMemory\<close> with the clock at 2000 the first conversation, the one updated at
  1000, is removed, and the new one is appended.
\<close>

theorem createConversation_evicts_first_oldest_witness:
  "keyed (conversations fiftyMemory)
   \<and> map_size (conversations fiftyMemory) = MAX_CONVERSATIONS
   \<and> newConversationId 2000 ''r'' \<notin> set (map_keys (conversations fiftyMemory))
   \<and> list_ex (\<lambda>e. updatedAt (snd e) \<le> 2000) (conversations fiftyMemory)
   \<and> map_size (conversations (snd (createConversation fiftyMemory ''gemma2-9b-it''
                                       2000 ''r'' 2000 2000))) = 50
   \<and> conversations (snd (createConversation fiftyMemory ''gemma2-9b-it'' 2000 ''r'' 2000 2000))
       = tl (conversations fiftyMemory)
         @ [(''conv_2000_r'',
             \<lparr> conv_id = ''conv_2000_r'', title = ''New Conversation'', messages = [],
               model = ''gemma2-9b-it'', createdAt = 2000, updatedAt = 2000 \<rparr>)]"
proof -
  have h1: "keyed (conversations fiftyMemory)"
    by code_simp
  have h2: "map_size (conversations fiftyMemory) = MAX_CONVERSATIONS"
    by code_simp
  have h3: "newConversationId 2000 ''r'' \<notin> set (map_keys (conversations fiftyMemory))"
    by code_simp
  have h4: "list_ex (\<lambda>e. updatedAt (snd e) \<le> 2000) (conversations fiftyMemory)"
    by code_simp
  have run: "conversations (snd (createConversation fiftyMemory ''gemma2-9b-it'' 2000 ''r'' 2000 2000))
       = tl (conversations fiftyMemory)
         @ [(''conv_2000_r'',
             \<lparr> conv_id = ''conv_2000_r'', title = ''New Conversation'', messages = [],
               model = ''gemma2-9b-it'', createdAt = 2000, updatedAt = 2000 \<rparr>)]"
    by code_simp
  from createConversation_evicts_first_oldest [OF h1 h2 h3 refl refl,
      of "''gemma2-9b-it''" 2000 2000]
  have "map_size (conversations (snd (createConversation fiftyMemory ''gemma2-9b-it''
                                       2000 ''r'' 2000 2000))) = 50"
    by blast
  with h1 h2 h3 h4 run show ?thesis by blast
qed

subsection \<open>Snapshots\<close>

lemma decode_encodeMessage:
  "Date_parse lib (toISOString lib (timestamp m)) = Some (timestamp m) \<Longrightarrow>
   decodeMessage lib (encodeMessage lib m) = Value m"
  by (cases "msg_model m"; cases "metadata m"; cases "role m")
     (simp_all add: decodeMessage_def encodeMessage_def optionalField_def knownKeys_def
        messageKeys_def field_def asString_def asRole_def asOptionalString_def newDate_def)

lemma collect_decode_encode:
  "list_all (\<lambda>m. Date_parse lib (toISOString lib (timestamp m)) = Some (timestamp m)) ms \<Longrightarrow>
   collect (map (decodeMessage lib) (map (encodeMessage lib) ms)) = Value ms"
  by (induction ms) (simp_all add: decode_encodeMessage)

lemma decode_encodeConversation:
  assumes "list_all (\<lambda>t. Date_parse lib (toISOString lib t) = Some t) (timesOfConversation c)"
  shows "decodeConversation lib (encodeConversation lib c) = Value c"
proof -
  have col: "collect (map (decodeMessage lib) (map (encodeMessage lib) (messages c)))
               = Value (messages c)"
    using assms by (intro collect_decode_encode) (simp add: timesOfConversation_def list_all_iff)
  have dates: "Date_parse lib (toISOString lib (createdAt c)) = Some (createdAt c)"
    "Date_parse lib (toISOString lib (updatedAt c)) = Some (updatedAt c)"
    using assms by (simp_all add: timesOfConversation_def)
  show ?thesis
    using col dates
    by (simp add: decodeConversation_def encodeConversation_def knownKeys_def conversationKeys_def
        field_def asString_def newDate_def del: map_map)
qed

lemma importLoop_encoded:
  "list_all (\<lambda>c. list_all (\<lambda>t. Date_parse lib (toISOString lib t) = Some t)
                     (timesOfConversation c)) cs \<Longrightarrow>
   importLoop lib m0 (map (encodeConversation lib) cs)
     = Some (True, foldl (\<lambda>m c. map_set m (conv_id c) c) m0 cs)"
  by (induction cs arbitrary: m0) (simp_all add: decode_encodeConversation)

lemma keyed_append_fold:
  "keyed (m0 @ m) \<Longrightarrow>
   foldl (\<lambda>acc c. map_set acc (conv_id c) c) m0 (map_values m) = m0 @ m"
proof (induction m arbitrary: m0)
  case Nil
  then show ?case by (simp add: map_values_def)
next
  case (Cons e m)
  obtain k c where e: "e = (k, c)" by (cases e)
  have id: "conv_id c = k" and fresh: "k \<notin> set (map_keys m0)"
    using Cons.prems e by (auto simp: keyed_def map_keys_def)
  have "keyed ((m0 @ [(k, c)]) @ m)" using Cons.prems e by simp
  from Cons.IH [OF this] show ?case
    using e id fresh by (simp add: map_values_def map_set_fresh)
qed

lemma datesRoundTrip_conversations:
  "datesRoundTrip lib s \<Longrightarrow>
   list_all (\<lambda>c. list_all (\<lambda>t. Date_parse lib (toISOString lib t) = Some t)
                     (timesOfConversation c)) (map_values (conversations s))"
  by (auto simp: datesRoundTrip_def timesOf_def list_all_iff)

lemma import_of_export:
  assumes "keyed (conversations s)" and "datesRoundTrip lib s"
  shows "importConversations lib t (Some (exportConversations lib s))
           = Some (True, t\<lparr> conversations := conversations s \<rparr>)"
proof -
  have "importLoop lib [] (map (encodeConversation lib) (map_values (conversations s)))
          = Some (True, conversations s)"
    using importLoop_encoded [OF datesRoundTrip_conversations [OF assms(2)], of "[]"]
      keyed_append_fold [of "[]" "conversations s"] assms(1)
    by simp
  then show ?thesis
    by (simp add: importConversations_def exportConversations_def)
qed

text \<open>
  C5. For every store whose conversations are filed under their own ids (every store that
  the operations reach from the empty one is: \<open>keyed_reachable\<close>), with a runtime in
  which \<open>Date.parse\<close> reads back what \<open>toISOString\<close> prints for the dates of the store:
  importing the export succeeds, into the same store or any other, and the store then
  holds exactly the exported conversations, in the same order, each with the same id,
  the same messages in the same order with the same contents, and the same dates. The
  export does not depend on the current-conversation marker, and the import leaves the
  marker of the importing store as it was.
\<close>

theorem import_export_round_trip:
  assumes "keyed (conversations s)" and "datesRoundTrip lib s"
  shows "importConversations lib s (Some (exportConversations lib s)) = Some (True, s)
     \<and> importConversations lib t (Some (exportConversations lib s))
         = Some (True, t\<lparr> conversations := conversations s \<rparr>)
     \<and> exportConversations lib (s\<lparr> currentConversationId := cur \<rparr>) = exportConversations lib s"
proof -
  have "importConversations lib s (Some (exportConversations lib s))
          = Some (True, s\<lparr> conversations := conversations s \<rparr>)"
    using assms by (rule import_of_export)
  moreover have "importConversations lib t (Some (exportConversations lib s))
         = Some (True, t\<lparr> conversations := conversations s \<rparr>)"
    using assms by (rule import_of_export)
  moreover have "exportConversations lib (s\<lparr> currentConversationId := cur \<rparr>)
                   = exportConversations lib s"
    by (simp add: exportConversations_def)
  ultimately show ?thesis by simp
qed

theorem import_export_round_trip_witness:
  "keyed (conversations demoMemory) \<and> datesRoundTrip demoLib demoMemory
   \<and> importConversations demoLib demoMemory (Some (exportConversations demoLib demoMemory))
       = Some (True, demoMemory)
   \<and> importConversations demoLib emptyMemory (Some (exportConversations demoLib demoMemory))
       = Some (True, \<lparr> conversations = [(''c1'', demoConversation)],
                       currentConversationId = None \<rparr>)"
proof -
  have h1: "keyed (conversations demoMemory)"
    by code_simp
  have h2: "datesRoundTrip demoLib demoMemory"
    by code_simp
  have e: "emptyMemory\<lparr> conversations := conversations demoMemory \<rparr>
             = \<lparr> conversations = [(''c1'', demoConversation)], currentConversationId = None \<rparr>"
    by (simp add: emptyMemory_def demoMemory_def)
  show ?thesis
    using h1 h2 e import_export_round_trip [OF h1 h2, of emptyMemory None]
    by simp
qed

subsection \<open>What every operation preserves\<close>

lemma map_keys_map_set:
  "map_keys (map_set m k v) = (if k \<in> set (map_keys m) then map_keys m else map_keys m @ [k])"
  by (induction m k v rule: map_set.induct) (auto simp: map_keys_def)

lemma set_map_set: "set (map_set m k v) \<subseteq> insert (k, v) (set m)"
  by (induction m k v rule: map_set.induct) auto

lemma length_map_set:
  "length (map_set m k v) = (if k \<in> set (map_keys m) then length m else Suc (length m))"
  by (induction m k v rule: map_set.induct) (auto simp: map_keys_def)

lemma keyed_map_set: "keyed m \<Longrightarrow> conv_id v = k \<Longrightarrow> keyed (map_set m k v)"
  using set_map_set [of m k v]
  by (auto simp: keyed_def map_keys_map_set list_all_iff)

lemma keyed_map_delete: "keyed m \<Longrightarrow> keyed (map_delete m k)"
  by (auto simp: keyed_def map_delete_def map_keys_def list_all_iff distinct_map_filter)

lemma keyed_evictOldest: "keyed m \<Longrightarrow> keyed (evictOldest m)"
  by (auto simp: evictOldest_def keyed_map_delete split: list.splits)

lemma map_get_Some_mem: "map_get m k = Some c \<Longrightarrow> (k, c) \<in> set m"
  by (induction m) (auto split: if_splits)

lemma map_get_Some_key: "map_get m k = Some c \<Longrightarrow> k \<in> set (map_keys m)"
  by (induction m) (auto simp: map_keys_def split: if_splits)

lemma map_get_keyed: "keyed m \<Longrightarrow> map_get m k = Some c \<Longrightarrow> conv_id c = k"
  using map_get_Some_mem [of m k c] by (auto simp: keyed_def list_all_iff)

lemma keyed_importLoop:
  "keyed m \<Longrightarrow> importLoop lib m js = Some (finished, m') \<Longrightarrow> keyed m'"
proof (induction js arbitrary: m)
  case Nil
  then show ?case by simp
next
  case (Cons j js)
  show ?case
  proof (cases "decodeConversation lib j")
    case (Value c)
    then have "importLoop lib (map_set m (conv_id c) c) js = Some (finished, m')"
      using Cons.prems(2) by simp
    moreover have "keyed (map_set m (conv_id c) c)"
      using Cons.prems(1) by (simp add: keyed_map_set)
    ultimately show ?thesis using Cons.IH by blast
  next
    case Throws
    then show ?thesis using Cons.prems by simp
  next
    case Unmodelled
    then show ?thesis using Cons.prems by simp
  qed
qed

lemma keyed_perform:
  assumes "keyed (conversations s)" and "perform lib s op = Some s'"
  shows "keyed (conversations s')"
proof (cases op)
  case (CreateConversation mdl tid rnd tc tu)
  then show ?thesis
    using assms by (auto simp: createConversation_def Let_def keyed_evictOldest keyed_map_set)
next
  case (AddMessage call)
  then show ?thesis
    using assms
    by (auto simp: applyAdd_def addMessage_def keyed_map_set conv_id_pushMessage map_get_keyed
        split: option.splits)
next
  case (DeleteConversation ident)
  then show ?thesis using assms by (auto simp: deleteConversation_def keyed_map_delete)
next
  case (SetCurrentConversation ident)
  then show ?thesis using assms by (auto simp: setCurrentConversation_def)
next
  case (ImportConversations parsed)
  have empty: "keyed []" by (simp add: keyed_def map_keys_def)
  show ?thesis
    using assms ImportConversations keyed_importLoop [OF empty]
    by (auto simp: importConversations_def split: option.splits json.splits)
next
  case ClearAllConversations
  then show ?thesis
    using assms by (auto simp: clearAllConversations_def keyed_def map_keys_def)
qed

lemma keyed_performAll:
  "keyed (conversations s) \<Longrightarrow> performAll lib s ops = Some s' \<Longrightarrow> keyed (conversations s')"
proof (induction ops arbitrary: s)
  case Nil
  then show ?case by simp
next
  case (Cons op ops)
  then obtain s1 where s1: "perform lib s op = Some s1" "performAll lib s1 ops = Some s'"
    by (auto split: option.splits)
  have "keyed (conversations s1)"
    using Cons.prems(1) s1(1) by (rule keyed_perform)
  then show ?case using Cons.IH s1(2) by blast
qed

lemma keyed_reachable:
  "performAll lib emptyMemory ops = Some s \<Longrightarrow> keyed (conversations s)"
  by (rule keyed_performAll [of emptyMemory]) (simp_all add: emptyMemory_def keyed_def map_keys_def)

lemma length_evictOldest:
  assumes "keyed m" and "length m \<le> Suc MAX_CONVERSATIONS"
  shows "length (evictOldest m) \<le> MAX_CONVERSATIONS"
proof (cases "MAX_CONVERSATIONS < map_size m")
  case True
  from evictOldest_first_minimum [OF assms(1) True]
  obtain i where "i < length m" "evictOldest m = take i m @ drop (Suc i) m" by blast
  then show ?thesis using assms(2) by simp
next
  case False
  then show ?thesis by (simp add: evictOldest_def map_size_def)
qed

lemma set_evictOldest: "set (evictOldest m) \<subseteq> set m"
  by (auto simp: evictOldest_def map_delete_def split: list.splits)

lemma length_messages_pushMessage:
  "length (messages (pushMessage c m tid rnd tm tu)) \<le> MAX_MESSAGES_PER_CONVERSATION"
  by (simp add: messages_pushMessage length_slice_last)

text \<open>
  The operations other than \<open>importConversations\<close> keep a store within the two caps.
\<close>

lemma withinCaps_perform:
  assumes "keyed (conversations s)" and "withinCaps s" and "perform lib s op = Some s'"
    and "\<forall>parsed. op \<noteq> ImportConversations parsed"
  shows "withinCaps s'"
proof (cases op)
  case (CreateConversation mdl tid rnd tc tu)
  let ?k = "newConversationId tid rnd"
  let ?v = "\<lparr> conv_id = ?k, title = ''New Conversation'', messages = [],
              model = mdl, createdAt = tc, updatedAt = tu \<rparr>"
  let ?m1 = "map_set (conversations s) ?k ?v"
  have s': "conversations s' = evictOldest ?m1"
    using assms(3) CreateConversation by (auto simp: createConversation_def Let_def)
  have "keyed ?m1" using assms(1) by (simp add: keyed_map_set)
  moreover have "length ?m1 \<le> Suc MAX_CONVERSATIONS"
    using assms(2) by (auto simp: withinCaps_def map_size_def length_map_set)
  ultimately have "length (evictOldest ?m1) \<le> MAX_CONVERSATIONS"
    by (rule length_evictOldest)
  moreover have "\<forall>e\<in>set (evictOldest ?m1). length (messages (snd e)) \<le> MAX_MESSAGES_PER_CONVERSATION"
    using set_evictOldest [of ?m1] set_map_set [of "conversations s" ?k ?v] assms(2)
    by (fastforce simp: withinCaps_def map_values_def list_all_iff)
  ultimately show ?thesis
    using s' by (auto simp: withinCaps_def map_size_def map_values_def list_all_iff)
next
  case (AddMessage call)
  show ?thesis
  proof (cases "map_get (conversations s) (call_conversationId call)")
    case None
    then show ?thesis
      using assms(2,3) AddMessage by (simp add: applyAdd_def addMessage_def)
  next
    case (Some c)
    let ?v = "pushMessage c (call_message call) (call_tid call) (call_rnd call)
                (call_tm call) (call_tu call)"
    have s': "conversations s' = map_set (conversations s) (call_conversationId call) ?v"
      using assms(3) AddMessage Some by (auto simp: applyAdd_def addMessage_def)
    have "length (conversations s') = length (conversations s)"
      using s' map_get_Some_key [OF Some] by (simp add: length_map_set)
    moreover have "\<forall>e\<in>set (conversations s'). length (messages (snd e)) \<le> MAX_MESSAGES_PER_CONVERSATION"
      using s' set_map_set [of "conversations s" "call_conversationId call" ?v] assms(2)
        length_messages_pushMessage [of c "call_message call"]
      by (fastforce simp: withinCaps_def map_values_def list_all_iff)
    ultimately show ?thesis
      using assms(2) by (auto simp: withinCaps_def map_size_def map_values_def list_all_iff)
  qed
next
  case (DeleteConversation ident)
  have s': "conversations s' = filter (\<lambda>e. fst e \<noteq> ident) (conversations s)"
    using assms(3) DeleteConversation by (auto simp: deleteConversation_def map_delete_def)
  have "length (conversations s') \<le> length (conversations s)"
    unfolding s' by (rule length_filter_le)
  moreover have "set (conversations s') \<subseteq> set (conversations s)"
    unfolding s' by auto
  ultimately show ?thesis
    using assms(2) by (auto simp: withinCaps_def map_size_def map_values_def list_all_iff)
next
  case (SetCurrentConversation ident)
  then show ?thesis
    using assms(2,3) by (auto simp: withinCaps_def setCurrentConversation_def)
next
  case (ImportConversations parsed)
  then show ?thesis using assms(4) by simp
next
  case ClearAllConversations
  then show ?thesis
    using assms(3)
    by (auto simp: withinCaps_def clearAllConversations_def map_size_def map_values_def)
qed

subsection \<open>The caps and the import\<close>

lemma keyed_crowdedMemory: "keyed (conversations crowdedMemory)"
proof -
  have "inj_on (\<lambda>i. replicate (Suc i) CHR ''k'') (set [0..<51])"
    by (rule inj_onI) (metis length_replicate nat.inject)
  then have "distinct (map (\<lambda>i. replicate (Suc i) CHR ''k'') [0..<51])"
    by (simp add: distinct_map)
  then show ?thesis
    by (simp add: keyed_def crowdedMemory_def map_keys_def comp_def list_all_iff
        crowdedConversation_def)
qed

lemma dates_crowdedMemory: "datesRoundTrip demoLib crowdedMemory"
  by (simp add: datesRoundTrip_def timesOf_def crowdedMemory_def map_values_def comp_def
      timesOfConversation_def crowdedConversation_def demoLib_def list_all_iff)

lemma crowdedSnapshot_export: "crowdedSnapshot = exportConversations demoLib crowdedMemory"
  by (simp add: crowdedSnapshot_def exportConversations_def crowdedMemory_def map_values_def
      comp_def snapshotConversation_def encodeConversation_def crowdedConversation_def
      demoLib_def)

lemma keyed_longMemory: "keyed (conversations longMemory)"
  by (simp add: keyed_def longMemory_def map_keys_def longConversation_def)

lemma dates_longMemory: "datesRoundTrip demoLib longMemory"
  by (simp add: datesRoundTrip_def timesOf_def longMemory_def map_values_def
      timesOfConversation_def longConversation_def demoMessage_def demoLib_def comp_def
      list_all_iff)

lemma longSnapshot_export: "longSnapshot = exportConversations demoLib longMemory"
  by (simp add: longSnapshot_def exportConversations_def longMemory_def map_values_def
      comp_def snapshotMessage_def encodeConversation_def encodeMessage_def longConversation_def
      demoMessage_def optionalField_def demoLib_def)

text \<open>
  C3. \<open>importConversations\<close> installs a snapshot as it is. From the empty store, the
  import of a well-formed snapshot of 51 conversations returns \<open>true\<close> and leaves 51
  conversations in the store, one more than \<open>MAX_CONVERSATIONS\<close>; a
  \<open>createConversation\<close> after it evicts one and appends one, so 51 remain. The import of
  a snapshot whose one conversation has 101 messages leaves 101 messages in it, one more
  than \<open>MAX_MESSAGES_PER_CONVERSATION\<close>. (The other operations keep the caps:
  \<open>withinCaps_perform\<close>.)
\<close>

theorem importConversations_exceeds_caps:
  "importConversations demoLib emptyMemory (Some crowdedSnapshot) = Some (True, crowdedMemory)
   \<and> performAll demoLib emptyMemory [ImportConversations (Some crowdedSnapshot)]
       = Some crowdedMemory
   \<and> map_size (conversations crowdedMemory) = 51
   \<and> \<not> withinCaps crowdedMemory
   \<and> map_option (\<lambda>s. map_size (conversations s))
       (performAll demoLib emptyMemory
          [ImportConversations (Some crowdedSnapshot),
           CreateConversation ''gemma2-9b-it'' 2000 ''r'' 2000 2000]) = Some 51
   \<and> performAll demoLib emptyMemory [ImportConversations (Some longSnapshot)] = Some longMemory
   \<and> map (\<lambda>c. length (messages c)) (map_values (conversations longMemory)) = [101]
   \<and> \<not> withinCaps longMemory
   \<and> MAX_CONVERSATIONS = 50 \<and> MAX_MESSAGES_PER_CONVERSATION = 100"
proof -
  have imp1: "importConversations demoLib emptyMemory (Some crowdedSnapshot)
                = Some (True, crowdedMemory)"
    using import_of_export [OF keyed_crowdedMemory dates_crowdedMemory, of emptyMemory]
    by (simp add: crowdedSnapshot_export) (simp add: emptyMemory_def crowdedMemory_def)
  have imp2: "importConversations demoLib emptyMemory (Some longSnapshot) = Some (True, longMemory)"
    using import_of_export [OF keyed_longMemory dates_longMemory, of emptyMemory]
    by (simp add: longSnapshot_export) (simp add: emptyMemory_def longMemory_def)
  have size: "map_size (conversations crowdedMemory) = 51"
    by (simp add: crowdedMemory_def map_size_def)
  let ?k = "newConversationId 2000 ''r''"
  let ?v = "\<lparr> conv_id = ?k, title = ''New Conversation'', messages = [],
              model = ''gemma2-9b-it'', createdAt = 2000, updatedAt = 2000 \<rparr>"
  let ?m1 = "map_set (conversations crowdedMemory) ?k ?v"
  have k: "?k = ''conv_2000_r''" by code_simp
  have fresh: "?k \<notin> set (map_keys (conversations crowdedMemory))"
    unfolding k by (auto simp: crowdedMemory_def map_keys_def)
  have len1: "length ?m1 = 52"
    using fresh size by (simp add: length_map_set map_size_def)
  have "keyed ?m1"
    using keyed_crowdedMemory by (simp add: keyed_map_set)
  moreover have "MAX_CONVERSATIONS < map_size ?m1"
    using len1 by (simp add: map_size_def MAX_CONVERSATIONS_def)
  ultimately obtain i where "i < length ?m1" "evictOldest ?m1 = take i ?m1 @ drop (Suc i) ?m1"
    using evictOldest_first_minimum by blast
  then have "length (evictOldest ?m1) = 51"
    using len1 by simp
  then have create: "map_size (conversations
      (snd (createConversation crowdedMemory ''gemma2-9b-it'' 2000 ''r'' 2000 2000))) = 51"
    by (simp add: createConversation_def Let_def map_size_def)
  have long: "map (\<lambda>c. length (messages c)) (map_values (conversations longMemory)) = [101]"
    by (simp add: longMemory_def longConversation_def map_values_def)
  have over1: "\<not> withinCaps crowdedMemory"
    using size by (simp add: withinCaps_def MAX_CONVERSATIONS_def)
  have over2: "\<not> withinCaps longMemory"
    by (simp add: withinCaps_def longMemory_def longConversation_def map_values_def
        MAX_MESSAGES_PER_CONVERSATION_def)
  show ?thesis
    using imp1 imp2 size create long over1 over2
    by (simp add: MAX_CONVERSATIONS_def MAX_MESSAGES_PER_CONVERSATION_def)
qed

subsection \<open>A failed import\<close>

lemma importConversations_rejected_untouched:
  "importConversations lib s None = Some (False, s)"
  "importConversations lib s (Some JNull) = Some (False, s)"
  "importConversations lib s (Some (JBool b)) = Some (False, s)"
  "importConversations lib s (Some (JNum n)) = Some (False, s)"
  "importConversations lib s (Some (JStr t)) = Some (False, s)"
  "importConversations lib s (Some (JObj fs)) = Some (False, s)"
  by (simp_all add: importConversations_def)

text \<open>
  C6. A snapshot that is an array passes the check of line 183, and line 184 clears the
  map before any element is converted. When the first element is \<open>null\<close>, reading
  \<open>conv.id\<close> throws, the \<open>catch\<close> returns \<open>false\<close>, and the store is left empty,
  whatever it held: the import of \<open>[null]\<close> into \<open>demoMemory\<close>, which holds one
  conversation, returns \<open>false\<close> and leaves none.
\<close>

theorem importConversations_failure_clears_store:
  "importConversations lib s (Some (JArr (JNull # rest)))
     = Some (False, s\<lparr> conversations := [] \<rparr>)
   \<and> importConversations demoLib demoMemory (Some (JArr [JNull]))
     = Some (False, \<lparr> conversations = [], currentConversationId = Some ''c1'' \<rparr>)
   \<and> conversations demoMemory = [(''c1'', demoConversation)]"
  by (simp add: importConversations_def decodeConversation_def demoMemory_def)

subsection \<open>The current-conversation marker\<close>

lemma currentConversationId_importConversations:
  "importConversations lib s parsed = Some r \<Longrightarrow>
   currentConversationId (snd r) = currentConversationId s"
  by (auto simp: importConversations_def split: option.splits json.splits)

lemma currentConversationId_perform:
  "perform lib s op = Some s' \<Longrightarrow> currentConversationId s' = None \<Longrightarrow>
   currentConversationId s \<noteq> None \<Longrightarrow>
   op = ClearAllConversations \<or> (\<exists>i. op = DeleteConversation i \<and> currentConversationId s = Some i)"
proof (cases op)
  case (ImportConversations parsed)
  assume "perform lib s op = Some s'" "currentConversationId s' = None"
    "currentConversationId s \<noteq> None"
  then show ?thesis
    using ImportConversations currentConversationId_importConversations [of lib s parsed]
    by auto
qed (auto simp: createConversation_def Let_def applyAdd_def addMessage_def
      deleteConversation_def setCurrentConversation_def split: option.splits if_splits)

text \<open>
  C10. \<open>setCurrentConversation(id)\<close> stores \<open>id\<close> as the marker and touches nothing
  else, whether or not the store holds a conversation with that id, and
  \<open>getCurrentConversationId\<close> returns it. \<open>importConversations\<close> never changes the
  marker, so after an import the marker can name a conversation that is not in the store
  (the import of the empty snapshot into \<open>demoMemory\<close>). Of all operations, only
  \<open>clearAllConversations\<close> and \<open>deleteConversation\<close> of the current id turn a set marker
  into none, and both do.
\<close>

theorem current_marker_unchecked:
  "getCurrentConversationId (setCurrentConversation s ident) = Some ident
   \<and> conversations (setCurrentConversation s ident) = conversations s
   \<and> (\<forall>r. importConversations lib s parsed = Some r
          \<longrightarrow> getCurrentConversationId (snd r) = getCurrentConversationId s)
   \<and> (\<exists>s1 i. importConversations lib demoMemory (Some (JArr [])) = Some (True, s1)
          \<and> getCurrentConversationId s1 = Some i \<and> getConversation s1 i = None)
   \<and> (\<forall>s'. perform lib s op = Some s' \<and> getCurrentConversationId s' = None
             \<and> getCurrentConversationId s \<noteq> None
          \<longrightarrow> op = ClearAllConversations
              \<or> (\<exists>i. op = DeleteConversation i \<and> getCurrentConversationId s = Some i))
   \<and> getCurrentConversationId (clearAllConversations s) = None
   \<and> (getCurrentConversationId s = Some ident
          \<longrightarrow> getCurrentConversationId (deleteConversation s ident) = None)"
proof -
  have a: "\<forall>r. importConversations lib s parsed = Some r
          \<longrightarrow> getCurrentConversationId (snd r) = getCurrentConversationId s"
    by (simp add: getCurrentConversationId_def currentConversationId_importConversations)
  have b: "\<exists>s1 i. importConversations lib demoMemory (Some (JArr [])) = Some (True, s1)
          \<and> getCurrentConversationId s1 = Some i \<and> getConversation s1 i = None"
    by (simp add: importConversations_def getCurrentConversationId_def getConversation_def
        demoMemory_def)
  have c: "\<forall>s'. perform lib s op = Some s' \<and> getCurrentConversationId s' = None
             \<and> getCurrentConversationId s \<noteq> None
          \<longrightarrow> op = ClearAllConversations
              \<or> (\<exists>i. op = DeleteConversation i \<and> getCurrentConversationId s = Some i)"
    using currentConversationId_perform [of lib s op]
    by (simp add: getCurrentConversationId_def)
  show ?thesis
    using a b c
    by (simp add: getCurrentConversationId_def setCurrentConversation_def
        clearAllConversations_def deleteConversation_def)
qed

theorem current_marker_unchecked_witness:
  "getConversation demoMemory ''nowhere'' = None
   \<and> getCurrentConversationId (setCurrentConversation demoMemory ''nowhere'') = Some ''nowhere''
   \<and> importConversations demoLib demoMemory (Some (JArr [snapshotConversation 0])) \<noteq> None
   \<and> map_option (\<lambda>r. getCurrentConversationId (snd r))
        (importConversations demoLib demoMemory (Some (JArr [snapshotConversation 0]))) = Some (Some ''c1'')
   \<and> map_option (\<lambda>r. getConversation (snd r) ''c1'')
        (importConversations demoLib demoMemory (Some (JArr [snapshotConversation 0]))) = Some None
   \<and> getCurrentConversationId demoMemory = Some ''c1''
   \<and> perform demoLib demoMemory (DeleteConversation ''c1'')
       = Some \<lparr> conversations = [], currentConversationId = None \<rparr>"
proof -
  have n: "getConversation demoMemory ''nowhere'' = None"
    by (simp add: getConversation_def demoMemory_def)
  have i: "importConversations demoLib demoMemory (Some (JArr [snapshotConversation 0])) \<noteq> None"
    by code_simp
  have g: "map_option (\<lambda>r. getConversation (snd r) ''c1'')
        (importConversations demoLib demoMemory (Some (JArr [snapshotConversation 0]))) = Some None"
    by code_simp
  have cur: "getCurrentConversationId demoMemory = Some ''c1''"
    by (simp add: getCurrentConversationId_def demoMemory_def)
  have d: "perform demoLib demoMemory (DeleteConversation ''c1'')
       = Some \<lparr> conversations = [], currentConversationId = None \<rparr>"
    by (simp add: deleteConversation_def demoMemory_def map_delete_def)
  from i obtain r where r: "importConversations demoLib demoMemory (Some (JArr [snapshotConversation 0])) = Some r"
    by blast
  have "getCurrentConversationId (snd r) = getCurrentConversationId demoMemory"
    using r current_marker_unchecked [of demoMemory "''nowhere''" demoLib "Some (JArr [snapshotConversation 0])"
        "DeleteConversation ''c1''"]
    by blast
  then have m: "map_option (\<lambda>r. getCurrentConversationId (snd r))
        (importConversations demoLib demoMemory (Some (JArr [snapshotConversation 0]))) = Some (Some ''c1'')"
    using r cur by simp
  have s: "getCurrentConversationId (setCurrentConversation demoMemory ''nowhere'') = Some ''nowhere''"
    using current_marker_unchecked [of demoMemory "''nowhere''" demoLib "Some (JArr [snapshotConversation 0])"
        "DeleteConversation ''c1''"]
    by blast
  show ?thesis using n s i m g cur d by blast
qed

section \<open>Properties of the routes\<close>

subsection \<open>The chat route\<close>

text \<open>
  C8. \<open>isGroqModel\<close> holds of exactly the five identifiers of the list. The provider
  that \<open>chatRoute\<close> reports is a function of the model identifier alone: \<open>Groq\<close> for
  the five, \<open>OpenRouter\<close> for every other identifier, \<open>anthropic/claude-sonnet-4\<close> and
  the default model among them. The answer comes from the upstream of that provider, and
  the other upstream has no part in the outcome.
\<close>

theorem chat_routing_by_model:
  "isGroqModel m =
     (m = ''llama-3.3-70b-versatile'' \<or> m = ''llama-3.1-8b-instant'' \<or> m = ''llama3-70b-8192''
      \<or> m = ''llama3-8b-8192'' \<or> m = ''gemma2-9b-it'')
   \<and> isGroqModel ''llama-3.3-70b-versatile''
   \<and> \<not> isGroqModel ''anthropic/claude-sonnet-4''
   \<and> \<not> isGroqModel ''deepseek/deepseek-r1-0528:free''
   \<and> (\<forall>p r. chatRoute env m groq openRouter = Inr (p, r) \<longrightarrow>
          p = (if isGroqModel m then ''Groq'' else ''OpenRouter'')
        \<and> (if isGroqModel m then groq = Inr r else openRouter = OkBody (Some r)))
   \<and> (isGroqModel m \<longrightarrow>
          chatRoute env m groq openRouter = chatRoute env m groq openRouter')
   \<and> (\<not> isGroqModel m \<longrightarrow>
          chatRoute env m groq openRouter = chatRoute env m groq' openRouter)"
proof -
  have a: "isGroqModel m =
     (m = ''llama-3.3-70b-versatile'' \<or> m = ''llama-3.1-8b-instant'' \<or> m = ''llama3-70b-8192''
      \<or> m = ''llama3-8b-8192'' \<or> m = ''gemma2-9b-it'')"
    by (simp add: isGroqModel_def groqModels_def)
  have b: "isGroqModel ''llama-3.3-70b-versatile''"
    by (simp add: isGroqModel_def groqModels_def)
  have c: "\<not> isGroqModel ''anthropic/claude-sonnet-4''"
    by (simp add: isGroqModel_def groqModels_def)
  have d: "\<not> isGroqModel ''deepseek/deepseek-r1-0528:free''"
    by (simp add: isGroqModel_def groqModels_def)
  have e: "\<forall>p r. chatRoute env m groq openRouter = Inr (p, r) \<longrightarrow>
          p = (if isGroqModel m then ''Groq'' else ''OpenRouter'')
        \<and> (if isGroqModel m then groq = Inr r else openRouter = OkBody (Some r))"
    by (auto simp: chatRoute_def split: option.splits sum.splits ChatFetch.splits if_splits)
  have f: "isGroqModel m \<longrightarrow>
          chatRoute env m groq openRouter = chatRoute env m groq openRouter'"
    by (simp add: chatRoute_def)
  have g: "\<not> isGroqModel m \<longrightarrow>
          chatRoute env m groq openRouter = chatRoute env m groq' openRouter"
    by (simp add: chatRoute_def)
  show ?thesis
    using a b c d e f g by blast
qed

theorem chat_routing_by_model_witness:
  "isGroqModel ''gemma2-9b-it''
   \<and> chatRoute demoEnv ''gemma2-9b-it'' (Inr demoChatResult) (FetchThrows ''offline'')
       = Inr (''Groq'', demoChatResult)
   \<and> \<not> isGroqModel ''anthropic/claude-sonnet-4''
   \<and> chatRoute demoEnv ''anthropic/claude-sonnet-4'' (Inl ''offline'') (OkBody (Some demoChatResult))
       = Inr (''OpenRouter'', demoChatResult)"
proof -
  have r1: "chatRoute demoEnv ''gemma2-9b-it'' (Inr demoChatResult) (FetchThrows ''offline'')
       = Inr (''Groq'', demoChatResult)"
    by (simp add: chatRoute_def isGroqModel_def groqModels_def demoEnv_def)
  have r2: "chatRoute demoEnv ''anthropic/claude-sonnet-4'' (Inl ''offline'')
              (OkBody (Some demoChatResult)) = Inr (''OpenRouter'', demoChatResult)"
    by (simp add: chatRoute_def isGroqModel_def groqModels_def demoEnv_def getRandomApiKey_def)
  have g: "isGroqModel ''gemma2-9b-it''"
    using chat_routing_by_model [of "''gemma2-9b-it''" demoEnv "Inr demoChatResult"
        "FetchThrows ''offline''" "FetchThrows ''offline''" "Inr demoChatResult", THEN conjunct1]
    by simp
  have n: "\<not> isGroqModel ''anthropic/claude-sonnet-4''"
    using chat_routing_by_model [of "''gemma2-9b-it''" demoEnv "Inr demoChatResult"
        "FetchThrows ''offline''" "FetchThrows ''offline''" "Inr demoChatResult",
        THEN conjunct2, THEN conjunct2, THEN conjunct1]
    by simp
  show ?thesis using r1 r2 g n by blast
qed

subsection \<open>The image route\<close>

lemma generateAdvancedPlaceholder_prefix:
  "generateAdvancedPlaceholder lib prompt sz = Some u \<Longrightarrow> take 17 u = ''/placeholder.svg?''"
  by (auto simp: generateAdvancedPlaceholder_def Let_def split: option.splits prod.splits)

lemma callPlaceholder_prefix:
  "callPlaceholder lib prompt sz = Some u \<Longrightarrow> take 17 u = ''/placeholder.svg?''"
  by (auto simp: callPlaceholder_def generateAdvancedPlaceholder_prefix split: json.splits)

text \<open>
  C9, as stated, fails when no credential is configured. \<open>getRandomApiKey\<close> throws
  before the inner \<open>try\<close>, the outer \<open>catch\<close> answers with the emergency response: the
  status is 200 and the url is a fixed local placeholder, but \<open>metadata\<close> has no
  \<open>fallback\<close> field; the marker \<open>fallback: true\<close> stands at the top of the body. The
  same response answers a request whose options are \<open>null\<close>, with a key configured:
  line 41 throws inside the inner \<open>try\<close> and line 72 throws again outside it.
\<close>

theorem image_fallback_no_credential_counterexample:
  "promptOf demoImageRequest = Some (JStr ''a cat'')
   \<and> OPENROUTER_API_KEYS noKeysEnv = []
   \<and> status (imagePOST demoStrings noKeysEnv (Some demoImageRequest) StatusNotOk ''now'') = 200
   \<and> map_option meta_fallback
        (image_metadata (imagePOST demoStrings noKeysEnv (Some demoImageRequest) StatusNotOk ''now''))
       = Some None
   \<and> map_option meta_fallback
        (image_metadata (imagePOST demoStrings noKeysEnv (Some demoImageRequest) StatusNotOk ''now''))
       \<noteq> Some (Some True)
   \<and> body_fallback (imagePOST demoStrings noKeysEnv (Some demoImageRequest) StatusNotOk ''now'')
       = Some True
   \<and> OPENROUTER_API_KEYS demoEnv \<noteq> []
   \<and> imagePOST demoStrings demoEnv (Some nullOptionsRequest) ThrowsInTry ''now''
       = emergencyFallback RuntimeMessage ''now''
   \<and> map_option meta_fallback
        (image_metadata (imagePOST demoStrings demoEnv (Some nullOptionsRequest) ThrowsInTry ''now''))
       = Some None"
  by (simp add: imagePOST_def demoImageRequest_def nullOptionsRequest_def noKeysEnv_def demoEnv_def
      promptOf_def optionsOf_def field_def getRandomApiKey_def emergencyFallback_def)

text \<open>
  C9, amended. Let the request be an object whose prompt is truthy (a non-empty string,
  for one) and let the image generation fail: no credential is configured, or something
  throws inside the inner \<open>try\<close> (the options of the request are \<open>null\<close>, or the call or
  the reading of its answer throws), or the status is not a success, or the success
  response has no \<open>data\<close> or an empty one. The handler answers with status 200 and one
  image whose url is a local placeholder reference (\<open>/placeholder.svg?...\<close>). If a
  credential is configured, the options are not \<open>null\<close> and the call of
  \<open>generateAdvancedPlaceholder\<close> on the prompt and \<open>options.size || "1024x1024"\<close>
  returns (the prompt is a string, the size is a string, the text can be encoded), the url
  is the one it returns and \<open>metadata.fallback\<close> is \<open>true\<close>. Otherwise the url is the
  fixed emergency placeholder, \<open>metadata\<close> has no \<open>fallback\<close> field, and the field
  \<open>fallback\<close> at the top of the body is \<open>true\<close>.
\<close>

theorem image_fallback_on_failure:
  assumes "request = Some (JObj fs)"
    and "promptOf (JObj fs) = Some prompt" and "truthy prompt"
    and "OPENROUTER_API_KEYS env = [] \<or> optionsOf (JObj fs) = JNull
         \<or> upstream = ThrowsInTry \<or> upstream = StatusNotOk
         \<or> upstream = OkData None \<or> upstream = OkData (Some [])"
    and "r = imagePOST lib env request upstream now"
    and "built = callPlaceholder lib prompt (sizeOf (optionsOf (JObj fs)))"
  shows "status r = 200
     \<and> length (images r) = 1
     \<and> (\<exists>u. image_url (hd (images r)) = Some (JStr u) \<and> take 17 u = ''/placeholder.svg?'')
     \<and> (if OPENROUTER_API_KEYS env \<noteq> [] \<and> optionsOf (JObj fs) \<noteq> JNull \<and> built \<noteq> None
         then image_url (hd (images r)) = map_option JStr built
            \<and> map_option meta_fallback (image_metadata r) = Some (Some True)
            \<and> body_fallback r = None
         else image_url (hd (images r))
                = Some (JStr ''/placeholder.svg?height=512&width=512&text=Image%20Generation%20Error'')
            \<and> map_option meta_fallback (image_metadata r) = Some None
            \<and> body_fallback r = Some True)"
proof -
  have emergency: ?thesis
    if e: "r = emergencyFallback d now"
      and c: "OPENROUTER_API_KEYS env = [] \<or> optionsOf (JObj fs) = JNull \<or> built = None" for d
    using e c by (auto simp: emergencyFallback_def)
  show ?thesis
  proof (cases "OPENROUTER_API_KEYS env = []")
    case True
    then have "r = emergencyFallback (Text ''No OpenRouter API keys configured'') now"
      using assms(1,2,3,5) by (simp add: imagePOST_def getRandomApiKey_def)
    then show ?thesis using True by (intro emergency) auto
  next
    case False
    then obtain apiKey where key: "getRandomApiKey env = Inr apiKey"
      by (auto simp: getRandomApiKey_def)
    show ?thesis
    proof (cases "optionsOf (JObj fs) = JNull")
      case True
      then have "r = emergencyFallback RuntimeMessage now"
        using assms(1,2,3,5) key by (simp add: imagePOST_def)
      then show ?thesis using True by (intro emergency) auto
    next
      case notNull: False
      have up: "upstream = ThrowsInTry \<or> upstream = StatusNotOk
           \<or> upstream = OkData None \<or> upstream = OkData (Some [])"
        using assms(4) False notNull by simp
      show ?thesis
      proof (cases built)
        case None
        then have "r = emergencyFallback RuntimeMessage now"
          using assms(1,2,3,5,6) key notNull up by (auto simp: imagePOST_def)
        then show ?thesis using None by (intro emergency) auto
      next
        case (Some u)
        then have "images r = [\<lparr> image_url = Some (JStr u), image_prompt = prompt,
                                 image_model = modelOf (JObj fs) \<rparr>]
          \<and> status r = 200
          \<and> map_option meta_fallback (image_metadata r) = Some (Some True)
          \<and> body_fallback r = None"
          using assms(1,2,3,5,6) key notNull up by (auto simp: imagePOST_def)
        moreover have "take 17 u = ''/placeholder.svg?''"
          using Some assms(6) callPlaceholder_prefix [of lib prompt "sizeOf (optionsOf (JObj fs))" u]
          by simp
        ultimately show ?thesis
          using Some False notNull by simp
      qed
    qed
  qed
qed

text \<open>
  A request for \<open>a cat\<close> with a configured key and an upstream that answers 500: the
  placeholder response. The same with a numeric \<open>options.size\<close>: the emergency response.
\<close>

theorem image_fallback_on_failure_witness:
  "promptOf demoImageRequest = Some (JStr ''a cat'')
   \<and> truthy (JStr ''a cat'')
   \<and> OPENROUTER_API_KEYS demoEnv \<noteq> []
   \<and> optionsOf demoImageRequest \<noteq> JNull
   \<and> callPlaceholder demoStrings (JStr ''a cat'') (sizeOf (optionsOf demoImageRequest))
       = Some ''/placeholder.svg?height=1024&width=1024&text=a%20cat&category=animal&color=orange''
   \<and> status (imagePOST demoStrings demoEnv (Some demoImageRequest) StatusNotOk ''now'') = 200
   \<and> image_url (hd (images (imagePOST demoStrings demoEnv (Some demoImageRequest) StatusNotOk ''now'')))
       = Some (JStr
           ''/placeholder.svg?height=1024&width=1024&text=a%20cat&category=animal&color=orange'')
   \<and> map_option meta_fallback
        (image_metadata (imagePOST demoStrings demoEnv (Some demoImageRequest) StatusNotOk ''now''))
       = Some (Some True)
   \<and> callPlaceholder demoStrings (JStr ''a cat'') (sizeOf (optionsOf numericSizeRequest)) = None
   \<and> map_option meta_fallback
        (image_metadata (imagePOST demoStrings demoEnv (Some numericSizeRequest) StatusNotOk ''now''))
       = Some None
   \<and> body_fallback (imagePOST demoStrings demoEnv (Some numericSizeRequest) StatusNotOk ''now'')
       = Some True"
proof -
  have h2: "promptOf (JObj [(''prompt'', JStr ''a cat'')]) = Some (JStr ''a cat'')"
    by (simp add: promptOf_def field_def)
  have h3: "truthy (JStr ''a cat'')" by simp
  have h4: "OPENROUTER_API_KEYS demoEnv = []
         \<or> optionsOf (JObj [(''prompt'', JStr ''a cat'')]) = JNull
         \<or> StatusNotOk = ThrowsInTry \<or> StatusNotOk = StatusNotOk
         \<or> StatusNotOk = OkData None \<or> StatusNotOk = OkData (Some [])"
    by simp
  have keys: "OPENROUTER_API_KEYS demoEnv \<noteq> []"
    by (simp add: demoEnv_def)
  have opts: "optionsOf (JObj [(''prompt'', JStr ''a cat'')]) \<noteq> JNull"
    by (simp add: optionsOf_def field_def)
  have gen: "callPlaceholder demoStrings (JStr ''a cat'')
               (sizeOf (optionsOf (JObj [(''prompt'', JStr ''a cat'')])))
       = Some ''/placeholder.svg?height=1024&width=1024&text=a%20cat&category=animal&color=orange''"
    by code_simp
  from image_fallback_on_failure [OF refl h2 h3 h4 refl refl, of demoStrings "''now''"]
  have first: "status (imagePOST demoStrings demoEnv (Some (JObj [(''prompt'', JStr ''a cat'')]))
                  StatusNotOk ''now'') = 200
     \<and> image_url (hd (images (imagePOST demoStrings demoEnv
                  (Some (JObj [(''prompt'', JStr ''a cat'')])) StatusNotOk ''now'')))
         = Some (JStr
           ''/placeholder.svg?height=1024&width=1024&text=a%20cat&category=animal&color=orange'')
     \<and> map_option meta_fallback
          (image_metadata (imagePOST demoStrings demoEnv
                  (Some (JObj [(''prompt'', JStr ''a cat'')])) StatusNotOk ''now''))
         = Some (Some True)"
    using keys opts gen by auto
  have p2: "promptOf (JObj [(''prompt'', JStr ''a cat''), (''options'', JObj [(''size'', JNum 512)])])
              = Some (JStr ''a cat'')"
    by (simp add: promptOf_def field_def)
  have f2: "OPENROUTER_API_KEYS demoEnv = []
         \<or> optionsOf (JObj [(''prompt'', JStr ''a cat''), (''options'', JObj [(''size'', JNum 512)])])
             = JNull
         \<or> StatusNotOk = ThrowsInTry \<or> StatusNotOk = StatusNotOk
         \<or> StatusNotOk = OkData None \<or> StatusNotOk = OkData (Some [])"
    by simp
  have gen2: "callPlaceholder demoStrings (JStr ''a cat'')
       (sizeOf (optionsOf (JObj [(''prompt'', JStr ''a cat''),
                                 (''options'', JObj [(''size'', JNum 512)])]))) = None"
    by (simp add: callPlaceholder_def sizeOf_def optionsOf_def orElse_def field_def)
  from image_fallback_on_failure [OF refl p2 h3 f2 refl refl, of demoStrings "''now''"]
  have second: "map_option meta_fallback
        (image_metadata (imagePOST demoStrings demoEnv
           (Some (JObj [(''prompt'', JStr ''a cat''), (''options'', JObj [(''size'', JNum 512)])]))
           StatusNotOk ''now''))
       = Some None
     \<and> body_fallback (imagePOST demoStrings demoEnv
           (Some (JObj [(''prompt'', JStr ''a cat''), (''options'', JObj [(''size'', JNum 512)])]))
           StatusNotOk ''now'')
       = Some True"
    using gen2 by auto
  show ?thesis
    using h2 h3 keys opts gen first gen2 second
    by (simp add: demoImageRequest_def numericSizeRequest_def)
qed

end
